theory Spec2Isabelle
  imports Main "HOL-Library.Log_Nat"
begin

section \<open>Python strings\<close>

text \<open>
  A Python \<open>str\<close> is modelled as a \<open>string\<close> whose characters stand for code points
  below 256, one \<open>char\<close> per code point, so that \<open>length\<close> and \<open>take\<close> count what
  Python's \<open>len\<close> and slicing count.
\<close>

definition NL :: char where
  "NL = CHR 0x0A"

definition SQ :: char where
  "SQ = CHR 0x27"

text \<open>\<open>s.split(sep)\<close> for a one-character separator: never the empty list.\<close>

fun split_on :: "char \<Rightarrow> string \<Rightarrow> string list" where
  "split_on sep [] = [[]]"
| "split_on sep (c # cs) =
     (if c = sep then [] # split_on sep cs
      else (case split_on sep cs of
              [] \<Rightarrow> [[c]]
            | l # ls \<Rightarrow> (c # l) # ls))"

text \<open>\<open>sep.join(xs)\<close>.\<close>

fun join :: "string \<Rightarrow> string list \<Rightarrow> string" where
  "join sep [] = []"
| "join sep [x] = x"
| "join sep (x # y # ys) = x @ sep @ join sep (y # ys)"

text \<open>
  The lines of a text: the empty text has no line, and otherwise the lines are the
  pieces between newline characters.
\<close>

definition text_lines :: "string \<Rightarrow> string list" where
  "text_lines s = (if s = [] then [] else split_on NL s)"

section \<open>The note record\<close>

record list_item =
  item_text :: string
  isChecked :: bool

record annotation =
  ann_source :: string
  ann_title :: string
  ann_url :: string
  ann_description :: string

record attachment =
  filePath :: string

text \<open>
  The keys whose presence the code tests (\<open>"textContent" in note\<close> and so on) are
  optional fields; the keys it reads unconditionally are plain fields.
\<close>

record keep_note =
  title :: string
  textContent :: "string option"
  listContent :: "list_item list option"
  annotations :: "annotation list option"
  attachments :: "attachment list option"
  isPinned :: bool
  isArchived :: bool
  isTrashed :: bool
  color :: string
  userEditedTimestampUsec :: int

section \<open>Paths\<close>

text \<open>
  A \<open>pathlib\<close> path on a POSIX system: its root (\<open>''''\<close>, \<open>''/''\<close> or \<open>''//''\<close>) and its
  components. Parsing a string drops empty components and single dots.
\<close>

datatype path = Path (root: string) (parts: "string list")

definition root_of :: "string \<Rightarrow> string" where
  "root_of s =
     (if take 2 s = ''//'' \<and> take 3 s \<noteq> ''///'' then ''//''
      else if take 1 s = ''/'' then ''/''
      else [])"

definition parse_parts :: "string \<Rightarrow> string list" where
  "parse_parts s = filter (\<lambda>c. c \<noteq> [] \<and> c \<noteq> ''.'') (split_on (CHR ''/'') s)"

text \<open>\<open>p / s\<close>: an absolute right operand replaces the left one.\<close>

definition joinpath :: "path \<Rightarrow> string \<Rightarrow> path" where
  "joinpath p s =
     (if root_of s \<noteq> [] then Path (root_of s) (parse_parts s)
      else Path (root p) (parts p @ parse_parts s))"

text \<open>\<open>p.name\<close>: the last component, or the empty string.\<close>

definition name :: "path \<Rightarrow> string" where
  "name p = (case parts p of [] \<Rightarrow> [] | _ \<Rightarrow> last (parts p))"

definition parent :: "path \<Rightarrow> path" where
  "parent p = Path (root p) (butlast (parts p))"

section \<open>Errors\<close>

text \<open>
  A \<open>ConversionError\<close> carries the format string of its message and the values the
  \<open>%\<close> operator formats into it, in order.
\<close>

datatype fmt_arg = ArgStr string | ArgPath path | ArgNote keep_note

datatype error =
    ConversionError string "fmt_arg list"
  | UnboundLocalError string
  | OverflowError
  | ValueError string
  | OSError path
  | FileExistsError path
  | FileNotFoundError path
  | NotADirectoryError path
  | IsADirectoryError path
  | SameFileError path

definition error_args :: "error \<Rightarrow> fmt_arg list" where
  "error_args e = (case e of ConversionError _ args \<Rightarrow> args | _ \<Rightarrow> [])"

definition names_note :: "error \<Rightarrow> keep_note \<Rightarrow> bool" where
  "names_note e n = (ArgNote n \<in> set (error_args e))"

definition names_str :: "error \<Rightarrow> string \<Rightarrow> bool" where
  "names_str e s = (ArgStr s \<in> set (error_args e))"

definition names_path :: "error \<Rightarrow> path \<Rightarrow> bool" where
  "names_path e p = (ArgPath p \<in> set (error_args e))"

section \<open>Constants\<close>

definition TB_EXT :: string where
  "TB_EXT = ''textbundle''"

definition TB_CONTENT_FILE :: string where
  "TB_CONTENT_FILE = ''text.txt''"

definition TB_METADATA_FILE :: string where
  "TB_METADATA_FILE = ''info.json''"

definition TB_ASSET_DIR :: string where
  "TB_ASSET_DIR = ''assets''"

section \<open>Metadata\<close>

record bear_meta =
  pinned :: int
  trashedDate :: "string option"
  archived :: int
  modificationDate :: string
  creationDate :: string
  pinnedDate :: "string option"
  trashed :: int
  uniqueIdentifier :: string
  archivedDate :: "string option"
  lastEditingDevice :: string

record tbundle =
  net_shinyfrog_bear :: bear_meta
  transient :: bool
  tb_type :: string
  creatorIdentifier :: string
  version :: int

text \<open>
  \<open>new_tbundle_meta\<close>; the string of the fresh \<open>uuid4()\<close> is the argument \<open>uid\<close>.
\<close>

definition new_tbundle_meta ::
  "string \<Rightarrow> string \<Rightarrow> string \<Rightarrow> bool \<Rightarrow> bool \<Rightarrow> bool \<Rightarrow> tbundle" where
  "new_tbundle_meta uid created_ts mod_ts pinned_flag archived_flag trashed_flag =
     \<lparr> net_shinyfrog_bear =
         \<lparr> pinned = of_bool pinned_flag,
           trashedDate = (if trashed_flag then Some mod_ts else None),
           archived = of_bool archived_flag,
           modificationDate = mod_ts,
           creationDate = created_ts,
           pinnedDate = (if pinned_flag then Some mod_ts else None),
           trashed = of_bool trashed_flag,
           uniqueIdentifier = uid,
           archivedDate = (if archived_flag then Some mod_ts else None),
           lastEditingDevice = ''keep2bear'' \<rparr>,
       transient = True,
       tb_type = ''public.plain-text'',
       creatorIdentifier = ''net.shinyfrog.bear'',
       version = 2 \<rparr>"

section \<open>Binary64 arithmetic\<close>

text \<open>
  A Python \<open>float\<close> is an IEEE 754 binary64 number, modelled as the rational it
  denotes. An operation returns the exact result rounded to the nearest number with
  53 significant bits, a tie going to the even one; the exponent of the unit in the
  last place is at least \<open>-1074\<close>.
\<close>

definition round_half_even :: "rat \<Rightarrow> int" where
  "round_half_even x =
     (let f = \<lfloor>x\<rfloor>; d = x - of_int f
      in if d < 1 / 2 then f
         else if 1 / 2 < d then f + 1
         else if even f then f else f + 1)"

text \<open>\<open>ilog2 x\<close>, for positive \<open>x\<close>: the exponent \<open>e\<close> with \<open>2 powi e \<le> x < 2 powi (e + 1)\<close>.\<close>

definition ilog2 :: "rat \<Rightarrow> int" where
  "ilog2 x =
     (let (p, q) = quotient_of x; c = bitlen p - bitlen q
      in if 2 powi c \<le> x then c else c - 1)"

definition ulp_exponent :: "rat \<Rightarrow> int" where
  "ulp_exponent x = max (ilog2 \<bar>x\<bar> - 52) (- 1074)"

definition binary64 :: "rat \<Rightarrow> rat" where
  "binary64 x =
     (if x = 0 then 0
      else of_int (round_half_even (x / 2 powi ulp_exponent x)) * 2 powi ulp_exponent x)"

text \<open>The conversion of an \<open>int\<close> operand to \<open>float\<close>; it raises where the result
  would not be finite.\<close>

definition float_of_int :: "int \<Rightarrow> error + rat" where
  "float_of_int n =
     (let d = binary64 (of_int n)
      in if 2 ^ 1024 \<le> \<bar>d\<bar> then Inl OverflowError else Inr d)"

text \<open>The literal \<open>10e5\<close>: ten times the fifth power of ten.\<close>

definition TEN_E5 :: rat where
  "TEN_E5 = 10 * 10 ^ 5"

section \<open>Timestamps\<close>

text \<open>
  \<open>datetime.fromtimestamp\<close> splits its argument with \<open>modf\<close> into the integral part,
  cut towards zero, and the fraction; it multiplies the fraction by \<open>1e6\<close>, rounds the
  product half to even to the microseconds, and carries into the seconds.
\<close>

definition modf_intpart :: "rat \<Rightarrow> int" where
  "modf_intpart x = (if 0 \<le> x then \<lfloor>x\<rfloor> else \<lceil>x\<rceil>)"

definition timeval :: "rat \<Rightarrow> int \<times> int" where
  "timeval d =
     (let intpart = modf_intpart d;
          floatpart = binary64 ((d - of_int intpart) * 1000000);
          rounded = round_half_even floatpart
      in if 1000000 \<le> rounded then (intpart + 1, rounded - 1000000)
         else if rounded < 0 then (intpart - 1, rounded + 1000000)
         else (intpart, rounded))"

text \<open>
  A local \<open>datetime\<close> is the instant it denotes: whole seconds since the epoch, and
  microseconds. The calendar and the time zone are the machine's: \<open>zone t\<close> is what
  the C library and the zone rules give for the instant \<open>t\<close>, the local calendar time
  written \<open>YYYY-MM-DDTHH:MM:SS\<close> and the offset from UTC written \<open>+HH:MM\<close>, or the error
  the library raises for an instant it cannot represent.
\<close>

record datetime =
  epoch_second :: int
  microsecond :: int

type_synonym zone = "int \<Rightarrow> error + string \<times> string"

definition fromtimestamp :: "zone \<Rightarrow> rat \<Rightarrow> error + datetime" where
  "fromtimestamp zone t =
     (let (sec, us) = timeval t
      in case zone sec of
           Inl e \<Rightarrow> Inl e
         | Inr _ \<Rightarrow> Inr \<lparr>epoch_second = sec, microsecond = us\<rparr>)"

text \<open>\<open>"%06d" % us\<close>.\<close>

definition digits6 :: "int \<Rightarrow> string" where
  "digits6 us =
     map (\<lambda>p. char_of (48 + us div p mod 10)) [100000, 10000, 1000, 100, 10, 1]"

text \<open>\<open>isoformat()\<close> of an aware local \<open>datetime\<close>: the fraction is written only when
  the microseconds are not zero.\<close>

definition isoformat :: "zone \<Rightarrow> datetime \<Rightarrow> error + string" where
  "isoformat zone dt =
     (case zone (epoch_second dt) of
        Inl e \<Rightarrow> Inl e
      | Inr (wall, off) \<Rightarrow>
          Inr (wall @ (if microsecond dt = 0 then [] else ''.'' @ digits6 (microsecond dt))
                 @ off))"

text \<open>\<open>datetime_to_str\<close>: \<open>astimezone()\<close> attaches the local zone and keeps the instant.\<close>

definition datetime_to_str :: "zone \<Rightarrow> datetime \<Rightarrow> error + string" where
  "datetime_to_str zone ts = isoformat zone (ts\<lparr>microsecond := 0\<rparr>)"

section \<open>Metadata of a note\<close>

text \<open>The block \<open># Convert time from POSIX ns timestamp\<close> of \<open>convert_metadata\<close>.\<close>

definition convert_time :: "zone \<Rightarrow> int \<Rightarrow> error + string" where
  "convert_time zone usec =
     (case float_of_int usec of
        Inl e \<Rightarrow> Inl e
      | Inr f \<Rightarrow>
          (case fromtimestamp zone (binary64 (f / TEN_E5)) of
             Inl e \<Rightarrow> Inl e
           | Inr mod_ts \<Rightarrow> datetime_to_str zone mod_ts))"

definition convert_metadata ::
  "zone \<Rightarrow> string \<Rightarrow> keep_note \<Rightarrow> string \<Rightarrow> error + tbundle" where
  "convert_metadata zone uid note created_ts =
     (case convert_time zone (userEditedTimestampUsec note) of
        Inl e \<Rightarrow> Inl e
      | Inr mod_ts \<Rightarrow>
          Inr (new_tbundle_meta uid created_ts mod_ts
                 (isPinned note) (isArchived note) (isTrashed note)))"

section \<open>Content\<close>

definition convert_list :: "list_item list \<Rightarrow> string" where
  "convert_list items =
     join [NL]
       (map (\<lambda>item. join '' '' [if isChecked item then ''+'' else ''-'', item_text item])
          items)"

text \<open>The template \<open>"[{title}]({url})\n> {description}"\<close>, filled in.\<close>

definition ann_convert_weblink :: "annotation \<Rightarrow> string" where
  "ann_convert_weblink ann =
     ''['' @ ann_title ann @ '']('' @ ann_url ann @ '')'' @ [NL] @ ''> '' @ ann_description ann"

definition converters :: "string \<rightharpoonup> (annotation \<Rightarrow> string)" where
  "converters = [''WEBLINK'' \<mapsto> ann_convert_weblink]"

definition unknown_annotation_fmt :: string where
  "unknown_annotation_fmt = ''Unknown annotation type: '' @ [SQ] @ ''%s'' @ [SQ]"

text \<open>The loop over \<open>note["annotations"]\<close>, with the list built so far.\<close>

fun annotations_loop :: "annotation list \<Rightarrow> string list \<Rightarrow> error + string list" where
  "annotations_loop [] acc = Inr acc"
| "annotations_loop (ann # anns) acc =
     (case converters (ann_source ann) of
        None \<Rightarrow> Inl (ConversionError unknown_annotation_fmt [ArgStr (ann_source ann)])
      | Some conversion_fn \<Rightarrow> annotations_loop anns (acc @ [conversion_fn ann]))"

definition convert_note_annotations :: "keep_note \<Rightarrow> error + string" where
  "convert_note_annotations note =
     (case annotations note of
        None \<Rightarrow> Inr (join [NL] [])
      | Some anns \<Rightarrow>
          (case annotations_loop anns [[]] of
             Inl e \<Rightarrow> Inl e
           | Inr acc \<Rightarrow> Inr (join [NL] acc)))"

text \<open>
  \<open>convert_note_text\<close>. The variable \<open>content\<close> is bound only when one of the two
  body keys is present; its first use raises otherwise.
\<close>

definition select_content :: "keep_note \<Rightarrow> string option" where
  "select_content note =
     (case textContent note of
        Some t \<Rightarrow> Some t
      | None \<Rightarrow>
          (case listContent note of
             Some l \<Rightarrow> Some (convert_list l)
           | None \<Rightarrow> None))"

definition convert_note_text :: "keep_note \<Rightarrow> bool \<Rightarrow> error + (string \<times> string list)" where
  "convert_note_text note ignore_colors =
     (case select_content note of
        None \<Rightarrow> Inl (UnboundLocalError ''content'')
      | Some content \<Rightarrow>
          (let (ttl, text0) =
                 (if title note \<noteq> [] then (title note, [''# '' @ title note])
                  else (hd (split_on NL content), []));
               text1 = text0 @ [content]
           in case convert_note_annotations note of
                Inl e \<Rightarrow> Inl e
              | Inr anns \<Rightarrow>
                  (let text2 = text1 @ [anns];
                       text3 = (if color note \<noteq> ''DEFAULT'' \<and> \<not> ignore_colors
                                then text2 @ [''#'' @ color note] else text2)
                   in Inr (ttl, text3))))"

section \<open>The file system\<close>

text \<open>
  The state of the file system: the directories that exist, the files with their
  contents, and the paths the operating system refuses to examine (a name that is
  too long, a directory that may not be searched). There are no symbolic links.
  A file holds either data or the \<open>json.dumps\<close> of a metadata record.
\<close>

datatype file_content = Data string | JsonDumps tbundle

record fs =
  dirs :: "path set"
  files :: "path \<rightharpoonup> file_content"
  refused :: "path set"

text \<open>
  A file is looked up the way the operating system resolves its path: a component
  \<open>..\<close> leaves the directory reached so far, which must exist; at the root it stays
  there, and above the current directory of a relative path it is kept.
\<close>

fun walk :: "fs \<Rightarrow> string \<Rightarrow> string list \<Rightarrow> string list \<Rightarrow> string list option" where
  "walk s r cur [] = Some cur"
| "walk s r cur (c # cs) =
     (if c \<noteq> ''..'' then walk s r (cur @ [c]) cs
      else if cur = [] \<or> last cur = ''..''
           then walk s r (if r = [] then cur @ [c] else cur) cs
      else if Path r cur \<in> dirs s then walk s r (butlast cur) cs
      else None)"

definition lookup_file :: "fs \<Rightarrow> path \<Rightarrow> file_content option" where
  "lookup_file s p =
     (case walk s (root p) [] (parts p) of
        None \<Rightarrow> None
      | Some cs \<Rightarrow> files s (Path (root p) cs))"

text \<open>\<open>p.is_file()\<close>: false for a path that leads nowhere, an \<open>OSError\<close> for a path
  the operating system refuses.\<close>

definition is_file :: "fs \<Rightarrow> path \<Rightarrow> error + bool" where
  "is_file s p =
     (if p \<in> refused s then Inl (OSError p) else Inr (lookup_file s p \<noteq> None))"

text \<open>
  Directories are tested and created under the path as written: the package paths
  are the output root followed by names that contain no \<open>..\<close>. Those names are
  short, and no refusal is modelled for \<open>exists()\<close>, \<open>mkdir\<close> and the writes.
\<close>

definition is_dir :: "fs \<Rightarrow> path \<Rightarrow> bool" where
  "is_dir s p = (p \<in> dirs s)"

definition exists_path :: "fs \<Rightarrow> path \<Rightarrow> bool" where
  "exists_path s p = (lookup_file s p \<noteq> None \<or> is_dir s p)"

text \<open>\<open>p.mkdir(exist_ok=False)\<close>.\<close>

definition mkdir :: "fs \<Rightarrow> path \<Rightarrow> error + fs" where
  "mkdir s p =
     (if exists_path s p then Inl (FileExistsError p)
      else if is_dir s (parent p) then Inr (s\<lparr>dirs := insert p (dirs s)\<rparr>)
      else if lookup_file s (parent p) \<noteq> None then Inl (NotADirectoryError p)
      else Inl (FileNotFoundError p))"

text \<open>\<open>open(p, "w")\<close> followed by one \<open>write\<close>.\<close>

definition write_file :: "fs \<Rightarrow> path \<Rightarrow> file_content \<Rightarrow> error + fs" where
  "write_file s p c =
     (if is_dir s p then Inl (IsADirectoryError p)
      else if is_dir s (parent p) then Inr (s\<lparr>files := (files s)(p \<mapsto> c)\<rparr>)
      else if lookup_file s (parent p) \<noteq> None then Inl (NotADirectoryError p)
      else Inl (FileNotFoundError p))"

text \<open>\<open>shutil.copy(src, dst)\<close>: a destination that is a directory receives the file
  under the base name of the source.\<close>

definition copy :: "fs \<Rightarrow> path \<Rightarrow> path \<Rightarrow> error + fs" where
  "copy s src dst =
     (let dst' = (if is_dir s dst then joinpath dst (name src) else dst)
      in if lookup_file s src \<noteq> None \<and> src = dst' then Inl (SameFileError src)
         else (case lookup_file s src of
                 None \<Rightarrow> Inl (if is_dir s src then IsADirectoryError src
                              else FileNotFoundError src)
               | Some c \<Rightarrow> write_file s dst' c))"

section \<open>Attachments\<close>

definition missing_file_fmt :: string where
  "missing_file_fmt =
     ''could not find file '' @ [SQ] @ ''%s'' @ [SQ] @ '' referenced by note ''
       @ [SQ] @ ''%s'' @ [SQ]"

text \<open>The loop over \<open>note["attachments"]\<close>, with the two lists built so far.\<close>

fun attachments_loop ::
  "keep_note \<Rightarrow> path \<Rightarrow> fs \<Rightarrow> attachment list \<Rightarrow> path list \<times> string list
     \<Rightarrow> error + (path list \<times> string list)" where
  "attachments_loop note srcpath s [] (assets, embeds) = Inr (assets, embeds)"
| "attachments_loop note srcpath s (att # atts) (assets, embeds) =
     (let fname = filePath att;
          src_file = joinpath srcpath fname
      in case is_file s src_file of
           Inl e \<Rightarrow> Inl e
         | Inr found \<Rightarrow>
             if \<not> found
             then Inl (ConversionError missing_file_fmt [ArgPath src_file, ArgNote note])
             else attachments_loop note srcpath s atts
                    (assets @ [src_file],
                     embeds @ [''['' @ TB_ASSET_DIR @ ''/'' @ fname @ '']'']))"

definition convert_note_attachments ::
  "keep_note \<Rightarrow> path \<Rightarrow> fs \<Rightarrow> error + (path list \<times> string list)" where
  "convert_note_attachments note srcpath s =
     (case attachments note of
        None \<Rightarrow> Inr ([], [])
      | Some atts \<Rightarrow> attachments_loop note srcpath s atts ([], []))"

section \<open>Writing the package\<close>

text \<open>\<open>c.isalnum()\<close> on the code points below 256.\<close>

definition isalnum :: "char \<Rightarrow> bool" where
  "isalnum c =
     (let n = (of_char c :: nat)
      in (48 \<le> n \<and> n \<le> 57) \<or> (65 \<le> n \<and> n \<le> 90) \<or> (97 \<le> n \<and> n \<le> 122)
         \<or> n = 170 \<or> n = 178 \<or> n = 179 \<or> n = 181 \<or> n = 185 \<or> n = 186
         \<or> (188 \<le> n \<and> n \<le> 190) \<or> (192 \<le> n \<and> n \<le> 214)
         \<or> (216 \<le> n \<and> n \<le> 246) \<or> (248 \<le> n \<and> n \<le> 255))"

definition sanitize_title :: "string \<Rightarrow> string" where
  "sanitize_title ttl =
     take 50 (filter (\<lambda>c. isalnum c \<or> c \<in> set ''._- '') ttl) @ ''.'' @ TB_EXT"

text \<open>The loop copying the assets; it stops at the first copy that fails.\<close>

fun copy_loop :: "path \<Rightarrow> path list \<Rightarrow> fs \<Rightarrow> error option \<times> fs" where
  "copy_loop asset_dir [] s = (None, s)"
| "copy_loop asset_dir (src_file # rest) s =
     (case copy s src_file (joinpath asset_dir (name src_file)) of
        Inl e \<Rightarrow> (Some e, s)
      | Inr s' \<Rightarrow> copy_loop asset_dir rest s')"

text \<open>
  \<open>write_textbundle\<close>. The string of the \<open>uuid4()\<close> drawn on a collision is the
  argument \<open>suffix_uid\<close>. The result is the error raised, if any, and the file system
  as the call leaves it.
\<close>

definition bundle_title :: "fs \<Rightarrow> path \<Rightarrow> string \<Rightarrow> string \<Rightarrow> string" where
  "bundle_title s outdir suffix_uid ttl =
     (let tb_title = sanitize_title ttl
      in if exists_path s (joinpath outdir tb_title)
         then tb_title @ take 8 suffix_uid else tb_title)"

text \<open>The block \<open># Copy note assets\<close>.\<close>

definition copy_note_assets :: "path \<Rightarrow> path list \<Rightarrow> fs \<Rightarrow> error option \<times> fs" where
  "copy_note_assets tb_dir assets s =
     (if assets \<noteq> []
      then (let asset_dir = joinpath tb_dir TB_ASSET_DIR
            in case mkdir s asset_dir of
                 Inl e \<Rightarrow> (Some e, s)
               | Inr s2 \<Rightarrow> copy_loop asset_dir assets s2)
      else (None, s))"

text \<open>The blocks \<open># Write note metadata\<close> and \<open># Write note text\<close>.\<close>

definition write_note_files ::
  "path \<Rightarrow> tbundle \<Rightarrow> string list \<Rightarrow> fs \<Rightarrow> error option \<times> fs" where
  "write_note_files tb_dir meta text s =
     (case write_file s (joinpath tb_dir TB_METADATA_FILE) (JsonDumps meta) of
        Inl e \<Rightarrow> (Some e, s)
      | Inr s4 \<Rightarrow>
          (case write_file s4 (joinpath tb_dir TB_CONTENT_FILE) (Data (join [NL] text)) of
             Inl e \<Rightarrow> (Some e, s4)
           | Inr s5 \<Rightarrow> (None, s5)))"

definition write_textbundle ::
  "string \<Rightarrow> string \<Rightarrow> string list \<Rightarrow> tbundle \<Rightarrow> path list \<Rightarrow> path \<Rightarrow> fs
     \<Rightarrow> error option \<times> fs" where
  "write_textbundle suffix_uid ttl text meta assets outdir s =
     (let tb_dir = joinpath outdir (bundle_title s outdir suffix_uid ttl)
      in case mkdir s tb_dir of
           Inl e \<Rightarrow> (Some e, s)
         | Inr s1 \<Rightarrow>
             (case copy_note_assets tb_dir assets s1 of
                (Some e, s3) \<Rightarrow> (Some e, s3)
              | (None, s3) \<Rightarrow> write_note_files tb_dir meta text s3))"

section \<open>One note\<close>

definition process_note ::
  "zone \<Rightarrow> string \<Rightarrow> string \<Rightarrow> keep_note \<Rightarrow> string \<Rightarrow> path \<Rightarrow> path
     \<Rightarrow> bool \<Rightarrow> fs \<Rightarrow> error option \<times> fs" where
  "process_note zone uid suffix_uid note created_ts srcpath outdir ignore_colors s =
     (case convert_metadata zone uid note created_ts of
        Inl e \<Rightarrow> (Some e, s)
      | Inr meta \<Rightarrow>
          (case convert_note_text note ignore_colors of
             Inl e \<Rightarrow> (Some e, s)
           | Inr (ttl, text) \<Rightarrow>
               (case convert_note_attachments note srcpath s of
                  Inl e \<Rightarrow> (Some e, s)
                | Inr (assets, embeds) \<Rightarrow>
                    write_textbundle suffix_uid ttl (text @ embeds) meta assets outdir s)))"

section \<open>Notions used in the properties\<close>

text \<open>The annotations of a note; an absent list counts as empty.\<close>

definition note_annotations :: "keep_note \<Rightarrow> annotation list" where
  "note_annotations note = (case annotations note of None \<Rightarrow> [] | Some anns \<Rightarrow> anns)"

text \<open>The tag block that ends the body, if any.\<close>

definition color_tag :: "keep_note \<Rightarrow> bool \<Rightarrow> string list" where
  "color_tag note ignore_colors =
     (if color note \<noteq> ''DEFAULT'' \<and> \<not> ignore_colors then [''#'' @ color note] else [])"

text \<open>The two conversion errors, as the code raises them.\<close>

definition unknown_annotation_error :: "annotation \<Rightarrow> error" where
  "unknown_annotation_error ann =
     ConversionError unknown_annotation_fmt [ArgStr (ann_source ann)]"

definition missing_file_error :: "keep_note \<Rightarrow> path \<Rightarrow> attachment \<Rightarrow> error" where
  "missing_file_error note srcpath att =
     ConversionError missing_file_fmt [ArgPath (joinpath srcpath (filePath att)), ArgNote note]"

text \<open>The error of the resolver at an attachment whose file check does not succeed.\<close>

definition attachment_error :: "keep_note \<Rightarrow> path \<Rightarrow> fs \<Rightarrow> attachment \<Rightarrow> error" where
  "attachment_error note srcpath s att =
     (case is_file s (joinpath srcpath (filePath att)) of
        Inl e \<Rightarrow> e
      | Inr _ \<Rightarrow> missing_file_error note srcpath att)"

text \<open>\<open>under d p\<close>: the path \<open>p\<close> is \<open>d\<close> or lies below it.\<close>

definition under :: "path \<Rightarrow> path \<Rightarrow> bool" where
  "under d p = (root p = root d \<and> take (length (parts d)) (parts p) = parts d)"

text \<open>The shape of \<open>str(uuid4())\<close> that matters here: 36 hexadecimal digits and hyphens.\<close>

definition uuid_str :: "string \<Rightarrow> bool" where
  "uuid_str u = (length u = 36 \<and> list_all (\<lambda>c. c \<in> set ''0123456789abcdef-'') u)"

text \<open>
  \<open>untouched_outside d s s'\<close>: from \<open>s\<close> to \<open>s'\<close> no directory disappears, and nothing
  changes at the paths that are not under \<open>d\<close>.
\<close>

definition untouched_outside :: "path \<Rightarrow> fs \<Rightarrow> fs \<Rightarrow> bool" where
  "untouched_outside d s s' =
     (dirs s \<subseteq> dirs s'
      \<and> (\<forall>p. \<not> under d p \<longrightarrow> files s' p = files s p \<and> (p \<in> dirs s' \<longleftrightarrow> p \<in> dirs s)))"

text \<open>Example notes.\<close>

definition groceries :: keep_note where
  "groceries =
     \<lparr> title = ''Groceries'', textContent = None,
       listContent = Some [\<lparr>item_text = ''milk'', isChecked = False\<rparr>,
                           \<lparr>item_text = ''eggs'', isChecked = True\<rparr>],
       annotations = None, attachments = None,
       isPinned = True, isArchived = False, isTrashed = False,
       color = ''DEFAULT'', userEditedTimestampUsec = 1612325106000000 \<rparr>"

definition hello :: keep_note where
  "hello =
     \<lparr> title = [], textContent = Some ''Hello world'', listContent = None,
       annotations = None, attachments = None,
       isPinned = False, isArchived = False, isTrashed = False,
       color = ''RED'', userEditedTimestampUsec = 1612325106000000 \<rparr>"

definition linked :: keep_note where
  "linked =
     \<lparr> title = ''Read'', textContent = Some ''later'', listContent = None,
       annotations = Some [\<lparr>ann_source = ''WEBLINK'', ann_title = ''A'', ann_url = ''http://a'',
                             ann_description = ''first''\<rparr>,
                           \<lparr>ann_source = ''WEBLINK'', ann_title = ''B'', ann_url = ''http://b'',
                             ann_description = ''second''\<rparr>],
       attachments = None,
       isPinned = False, isArchived = False, isTrashed = False,
       color = ''DEFAULT'', userEditedTimestampUsec = 1612325106000000 \<rparr>"

definition both_bodies :: keep_note where
  "both_bodies =
     \<lparr> title = [], textContent = Some ''plain'',
       listContent = Some [\<lparr>item_text = ''milk'', isChecked = False\<rparr>],
       annotations = None, attachments = None,
       isPinned = False, isArchived = False, isTrashed = False,
       color = ''DEFAULT'', userEditedTimestampUsec = 1612325106000000 \<rparr>"

text \<open>An example export directory, output directory and file system.\<close>

definition keep_dir :: path where
  "keep_dir = Path [] [''takeout'', ''Keep'']"

definition out_dir :: path where
  "out_dir = Path [] [''out'']"

definition disk :: fs where
  "disk =
     \<lparr> dirs = {Path [] [], Path [] [''takeout''], Path [] [''takeout'', ''Keep''],
               Path [] [''takeout'', ''Keep'', ''sub''], Path [] [''out'']},
       files = [Path [] [''takeout'', ''Keep'', ''photo.jpg''] \<mapsto> Data ''JPEG'',
                Path [] [''takeout'', ''Keep'', ''sub'', ''img.png''] \<mapsto> Data ''PNG''],
       refused = {} \<rparr>"

definition sheet_ann :: annotation where
  "sheet_ann = \<lparr>ann_source = ''SHEETS'', ann_title = ''S'', ann_url = ''http://s'',
                 ann_description = ''table''\<rparr>"

definition sheet_note :: keep_note where
  "sheet_note =
     \<lparr> title = ''Budget'', textContent = Some ''numbers'', listContent = None,
       annotations = Some [\<lparr>ann_source = ''WEBLINK'', ann_title = ''A'', ann_url = ''http://a'',
                             ann_description = ''first''\<rparr>, sheet_ann],
       attachments = None,
       isPinned = False, isArchived = False, isTrashed = False,
       color = ''DEFAULT'', userEditedTimestampUsec = 1612325106000000 \<rparr>"

definition dangling :: keep_note where
  "dangling =
     \<lparr> title = ''Trip'', textContent = Some ''photos'', listContent = None,
       annotations = None,
       attachments = Some [\<lparr>filePath = ''photo.jpg''\<rparr>, \<lparr>filePath = ''gone.jpg''\<rparr>],
       isPinned = False, isArchived = False, isTrashed = False,
       color = ''DEFAULT'', userEditedTimestampUsec = 1612325106000000 \<rparr>"

text \<open>A file system where the package name of the note \<open>Budget\<close> is taken.\<close>

definition disk_taken :: fs where
  "disk_taken =
     \<lparr> dirs = {Path [] [], Path [] [''takeout''], Path [] [''takeout'', ''Keep''],
               Path [] [''out''], Path [] [''out'', ''Budget.textbundle'']},
       files = [Path [] [''takeout'', ''Keep'', ''photo.jpg''] \<mapsto> Data ''JPEG'',
                Path [] [''out'', ''Budget.textbundle'', ''text.txt''] \<mapsto> Data ''old''],
       refused = {} \<rparr>"

definition uuid_example :: string where
  "uuid_example = ''1a2b3c4d-0000-4000-8000-00000000beef''"

definition meta_example :: tbundle where
  "meta_example =
     new_tbundle_meta ''9f8e7d6c-0000-4000-8000-00000000cafe'' ''2020-01-01T00:00:00+00:00''
       ''2021-02-03T04:05:06+00:00'' False False False"

text \<open>A note whose attachment lies in a subdirectory of the export.\<close>

definition nested :: keep_note where
  "nested =
     \<lparr> title = ''Trip'', textContent = Some ''photos'', listContent = None,
       annotations = None,
       attachments = Some [\<lparr>filePath = ''sub/img.png''\<rparr>],
       isPinned = False, isArchived = False, isTrashed = False,
       color = ''DEFAULT'', userEditedTimestampUsec = 1612325106000000 \<rparr>"

text \<open>A note with an unknown annotation and an attachment that is missing.\<close>

definition sheet_dangling :: keep_note where
  "sheet_dangling =
     \<lparr> title = ''Budget'', textContent = Some ''numbers'', listContent = None,
       annotations = Some [sheet_ann],
       attachments = Some [\<lparr>filePath = ''gone.jpg''\<rparr>],
       isPinned = False, isArchived = False, isTrashed = False,
       color = ''DEFAULT'', userEditedTimestampUsec = 1612325106000000 \<rparr>"

text \<open>Notes edited just before a full second, in 2021 and in 2514.\<close>

definition edited_2021 :: keep_note where
  "edited_2021 =
     \<lparr> title = ''Late'', textContent = Some ''x'', listContent = None,
       annotations = None, attachments = None,
       isPinned = False, isArchived = False, isTrashed = False,
       color = ''DEFAULT'', userEditedTimestampUsec = 1612325106999999 \<rparr>"

definition edited_2514 :: keep_note where
  "edited_2514 =
     \<lparr> title = ''Far'', textContent = Some ''x'', listContent = None,
       annotations = None, attachments = None,
       isPinned = False, isArchived = False, isTrashed = False,
       color = ''DEFAULT'', userEditedTimestampUsec = 17179869184999999 \<rparr>"

text \<open>A machine on UTC, at the instants of the examples.\<close>

definition utc :: zone where
  "utc t =
     (if t = 1612325106 then Inr (''2021-02-03T04:05:06'', ''+00:00'')
      else if t = 1612325107 then Inr (''2021-02-03T04:05:07'', ''+00:00'')
      else if t = 17179869184 then Inr (''2514-05-30T01:53:04'', ''+00:00'')
      else if t = 17179869185 then Inr (''2514-05-30T01:53:05'', ''+00:00'')
      else Inl (ValueError ''instant not in the example''))"

section \<open>Splitting and joining\<close>

lemma split_on_not_Nil: "split_on sep s \<noteq> []"
  by (induction s) (auto split: list.splits)

lemma hd_split_on: "hd (split_on sep s) = takeWhile (\<lambda>c. c \<noteq> sep) s"
  by (induction s) (auto split: list.splits simp: split_on_not_Nil)

lemma split_on_no_sep: "sep \<notin> set s \<Longrightarrow> split_on sep s = [s]"
  by (induction s) auto

lemma split_on_append_sep:
  "sep \<notin> set x \<Longrightarrow> split_on sep (x @ sep # r) = x # split_on sep r"
  by (induction x) auto

lemma join_Cons: "join sep (x # xs) = x @ concat (map (\<lambda>y. sep @ y) xs)"
  by (induction xs arbitrary: x) auto

lemma split_on_join_Cons:
  "sep \<notin> set x \<Longrightarrow> \<forall>y \<in> set xs. sep \<notin> set y \<Longrightarrow>
     split_on sep (x @ concat (map (\<lambda>y. sep # y) xs)) = x # xs"
proof (induction xs arbitrary: x)
  case Nil
  then show ?case by (simp add: split_on_no_sep)
next
  case (Cons y ys)
  from Cons.prems have "split_on sep (y @ concat (map (\<lambda>y. sep # y) ys)) = y # ys"
    by (intro Cons.IH) auto
  with Cons.prems show ?case
    by (simp add: split_on_append_sep)
qed

lemma split_on_join:
  "xs \<noteq> [] \<Longrightarrow> \<forall>x \<in> set xs. sep \<notin> set x \<Longrightarrow> split_on sep (join [sep] xs) = xs"
  by (cases xs) (simp_all add: join_Cons split_on_join_Cons del: join.simps)

lemma join_leading_empty: "join [c] ([] # xs) = concat (map (\<lambda>x. c # x) xs)"
  by (simp add: join_Cons del: join.simps)

lemma text_lines_join:
  assumes "\<forall>x \<in> set xs. x \<noteq> [] \<and> NL \<notin> set x"
  shows "text_lines (join [NL] xs) = xs"
proof (cases xs)
  case Nil
  then show ?thesis by (simp add: text_lines_def)
next
  case (Cons x rest)
  with assms have "join [NL] xs \<noteq> []"
    by (simp add: join_Cons del: join.simps)
  moreover from assms Cons have "split_on NL (join [NL] xs) = xs"
    by (intro split_on_join) auto
  ultimately show ?thesis by (simp add: text_lines_def)
qed

section \<open>Rounding\<close>

lemma rhe_error: "\<bar>of_int (round_half_even x) - x\<bar> \<le> 1 / 2"
proof -
  have "of_int \<lfloor>x\<rfloor> \<le> x" "x < of_int \<lfloor>x\<rfloor> + 1"
    by linarith+
  then show ?thesis
    by (auto simp: round_half_even_def Let_def)
qed

lemma rhe_of_int: "round_half_even (of_int n) = n"
  by (simp add: round_half_even_def)

lemma rhe_ge: "of_int n \<le> x \<Longrightarrow> n \<le> round_half_even x"
proof -
  assume "of_int n \<le> x"
  then have "n \<le> \<lfloor>x\<rfloor>" by (simp add: le_floor_iff)
  then show ?thesis
    by (auto simp: round_half_even_def Let_def)
qed

lemma rhe_le: "x < of_int n + 1 / 2 \<Longrightarrow> round_half_even x \<le> n"
proof -
  assume a: "x < of_int n + 1 / 2"
  have "of_int (round_half_even x) \<le> x + 1 / 2"
    using rhe_error [of x] by linarith
  with a have "(of_int (round_half_even x) :: rat) < of_int n + 1" by linarith
  then have "(of_int (round_half_even x) :: rat) < of_int (n + 1)" by simp
  then have "round_half_even x < n + 1" by (simp only: of_int_less_iff)
  then show ?thesis by simp
qed

lemma ilog2_lower:
  assumes "0 < x"
  shows "2 powi ilog2 x \<le> x"
proof -
  obtain p q where pq: "quotient_of x = (p, q)" by (cases "quotient_of x")
  then have q: "0 < q" and x: "x = of_int p / of_int q"
    by (simp_all add: quotient_of_denom_pos quotient_of_div)
  with assms have p: "0 < p"
    by (simp add: zero_less_divide_iff)
  let ?c = "bitlen p - bitlen q"
  have bp: "1 \<le> bitlen p" and bq: "1 \<le> bitlen q"
    using p q bitlen_eq_zero_iff [of p] bitlen_eq_zero_iff [of q] bitlen_nonneg [of p]
      bitlen_nonneg [of q] by linarith+
  have lo: "(2::int) ^ nat (bitlen p - 1) \<le> p" and hi: "q < 2 ^ nat (bitlen q)"
    using bitlen_bounds [OF p] bitlen_bounds [OF q] by simp_all
  have "(2::rat) powi (?c - 1) = 2 powi (bitlen p - 1) / 2 powi bitlen q"
    using power_int_diff [of "2::rat" "bitlen p - 1" "bitlen q"] by (simp add: algebra_simps)
  also have "\<dots> = 2 ^ nat (bitlen p - 1) / 2 ^ nat (bitlen q)"
    using bp bq by (simp add: power_int_nonneg_exp)
  also have "\<dots> \<le> of_int p / of_int q"
  proof (rule frac_le)
    from p show "(0::rat) \<le> of_int p" by simp
    from lo have "(of_int (2 ^ nat (bitlen p - 1)) :: rat) \<le> of_int p"
      by (simp only: of_int_le_iff)
    then show "(2::rat) ^ nat (bitlen p - 1) \<le> of_int p" by simp
    from q show "(0::rat) < of_int q" by simp
    from hi have "(of_int q :: rat) < of_int (2 ^ nat (bitlen q))"
      by (simp only: of_int_less_iff)
    then show "(of_int q :: rat) \<le> 2 ^ nat (bitlen q)" by simp
  qed
  finally have "(2::rat) powi (?c - 1) \<le> x" by (simp add: x)
  then show ?thesis
    by (simp add: ilog2_def pq Let_def)
qed

lemma ilog2_less:
  assumes "0 < x" and "x < 2 powi j"
  shows "ilog2 x < j"
proof (rule ccontr)
  assume "\<not> ilog2 x < j"
  then have "j \<le> ilog2 x" by simp
  then have "(2::rat) powi j \<le> 2 powi ilog2 x"
    by (intro power_int_increasing) simp_all
  with ilog2_lower [OF assms(1)] assms(2) show False by linarith
qed

lemma ulp_exponent_le:
  assumes "x \<noteq> 0" and "\<bar>x\<bar> < 2 powi j" and "- 1021 \<le> j"
  shows "ulp_exponent x \<le> j - 53"
proof -
  from assms have "ilog2 \<bar>x\<bar> < j" by (intro ilog2_less) simp_all
  with assms(3) show ?thesis by (simp add: ulp_exponent_def)
qed

lemma binary64_error: "\<bar>binary64 x - x\<bar> \<le> 2 powi ulp_exponent x / 2"
proof (cases "x = 0")
  case True
  then show ?thesis by (simp add: binary64_def)
next
  case False
  let ?u = "(2::rat) powi ulp_exponent x"
  have u: "0 < ?u" by simp
  have "binary64 x - x = (of_int (round_half_even (x / ?u)) - x / ?u) * ?u"
    using False u by (simp add: binary64_def algebra_simps)
  then have "\<bar>binary64 x - x\<bar> = \<bar>of_int (round_half_even (x / ?u)) - x / ?u\<bar> * ?u"
    using u by (simp add: abs_mult)
  also have "\<dots> \<le> (1 / 2) * ?u"
    using rhe_error [of "x / ?u"] u by (intro mult_right_mono) simp_all
  finally show ?thesis by simp
qed

text \<open>A multiple of the unit in the last place below the argument stays below the result.\<close>

lemma binary64_ge_grid:
  assumes "x \<noteq> 0" and "g = of_int n * 2 powi ulp_exponent x" and "g \<le> x"
  shows "g \<le> binary64 x"
proof -
  let ?u = "(2::rat) powi ulp_exponent x"
  have u: "0 < ?u" by simp
  from assms(2,3) u have "of_int n \<le> x / ?u"
    by (simp add: pos_le_divide_eq)
  then have "n \<le> round_half_even (x / ?u)" by (rule rhe_ge)
  then have "(of_int n :: rat) \<le> of_int (round_half_even (x / ?u))"
    by (simp only: of_int_le_iff)
  with u have "of_int n * ?u \<le> of_int (round_half_even (x / ?u)) * ?u"
    by (intro mult_right_mono) simp_all
  with assms(1,2) show ?thesis by (simp add: binary64_def)
qed

lemma binary64_le_grid:
  assumes "x \<noteq> 0" and "g = of_int n * 2 powi ulp_exponent x"
    and "x < g + 2 powi ulp_exponent x / 2"
  shows "binary64 x \<le> g"
proof -
  let ?u = "(2::rat) powi ulp_exponent x"
  have u: "0 < ?u" by simp
  from assms(2,3) u have "x / ?u < of_int n + 1 / 2"
    by (simp add: pos_divide_less_eq algebra_simps)
  then have "round_half_even (x / ?u) \<le> n" by (rule rhe_le)
  then have "(of_int (round_half_even (x / ?u)) :: rat) \<le> of_int n"
    by (simp only: of_int_le_iff)
  with u have "of_int (round_half_even (x / ?u)) * ?u \<le> of_int n * ?u"
    by (intro mult_right_mono) simp_all
  with assms(1,2) show ?thesis by (simp add: binary64_def)
qed

text \<open>An integer is a multiple of every unit \<open>2 powi e\<close> with \<open>e \<le> 0\<close>.\<close>

lemma int_on_grid: "e \<le> 0 \<Longrightarrow> (of_int k :: rat) = of_int (k * 2 ^ nat (- e)) * 2 powi e"
proof -
  assume "e \<le> 0"
  then have "(2::rat) powi e = 1 / 2 ^ nat (- e)"
    using power_int_minus_divide [of "2::rat" "- e"] by (simp add: power_int_nonneg_exp)
  then show ?thesis by simp
qed

lemma binary64_of_int:
  assumes "\<bar>n\<bar> < 2 ^ 53"
  shows "binary64 (of_int n) = of_int n"
proof (cases "n = 0")
  case True
  then show ?thesis by (simp add: binary64_def)
next
  case False
  let ?x = "of_int n :: rat"
  have "\<bar>?x\<bar> < 2 powi 53"
  proof -
    from assms have "(of_int \<bar>n\<bar> :: rat) < of_int (2 ^ 53)"
      by (simp only: of_int_less_iff)
    then show ?thesis by simp
  qed
  with False have "ulp_exponent ?x \<le> 0"
    using ulp_exponent_le [of ?x 53] by simp
  then have grid: "?x = of_int (n * 2 ^ nat (- ulp_exponent ?x)) * 2 powi ulp_exponent ?x"
    by (rule int_on_grid)
  from False have nz: "?x \<noteq> 0" by simp
  have "?x \<le> binary64 ?x"
    using binary64_ge_grid [OF nz grid] by simp
  moreover have "binary64 ?x \<le> ?x"
    using binary64_le_grid [OF nz grid] by simp
  ultimately show ?thesis by simp
qed

lemma quotient_below_next_second:
  assumes pos: "0 < n" and small: "n < 2 ^ 53"
  defines "t \<equiv> of_int n / 1000000" and "k \<equiv> n div 1000000"
  shows "of_int k \<le> binary64 t \<and> binary64 t \<le> of_int k + 99999925 / 100000000"
proof -
  let ?e = "ulp_exponent t"
  let ?u = "(2::rat) powi ?e"
  have u: "0 < ?u" by simp
  have tpos: "0 < t" using pos by (simp add: t_def)
  then have tnz: "t \<noteq> 0" by simp
  have "(of_int n :: rat) < of_int (2 ^ 53)"
    using small by (simp only: of_int_less_iff)
  then have "t < 2 ^ 53 / 1000000" by (simp add: t_def)
  then have "\<bar>t\<bar> < 2 powi 34" using tpos by simp
  then have e: "?e \<le> - 19"
    using ulp_exponent_le [OF tnz, of 34] by simp
  have "(of_int (k * 1000000) :: rat) \<le> of_int n"
    unfolding of_int_le_iff k_def by simp
  then have lo: "of_int k \<le> t" by (simp add: t_def)
  have "(of_int n :: rat) \<le> of_int (k * 1000000 + 999999)"
    unfolding of_int_le_iff k_def
    using pos_mod_bound [of 1000000 n] div_mult_mod_eq [of n 1000000] by linarith
  then have hi: "t \<le> of_int k + 999999 / 1000000" by (simp add: t_def)
  from e have kgrid: "(of_int k :: rat) = of_int (k * 2 ^ nat (- ?e)) * ?u"
    by (intro int_on_grid) simp
  have below: "of_int k \<le> binary64 t"
    using binary64_ge_grid [OF tnz kgrid lo] .
  have above: "binary64 t \<le> of_int k + 99999925 / 100000000"
  proof (cases "?e \<le> - 21")
    case True
    then have "?u \<le> 2 powi (- 21)"
      by (intro power_int_increasing) simp_all
    then have "?u / 2 \<le> 1 / 4194304" by simp
    with binary64_error [of t] have "binary64 t \<le> t + 1 / 4194304" by linarith
    with hi show ?thesis by simp
  next
    case False
    with e have range: "- 20 \<le> ?e" "?e \<le> - 19" by simp_all
    then have "(2::rat) powi (- 20) \<le> ?u" "?u \<le> 2 powi (- 19)"
      by (intro power_int_increasing; simp)+
    then have ub: "1 / 1048576 \<le> ?u" "?u \<le> 1 / 524288" by simp_all
    from e have "(of_int (k + 1) :: rat) = of_int ((k + 1) * 2 ^ nat (- ?e)) * ?u"
      by (intro int_on_grid) simp
    then have g: "of_int k + 1 - ?u = of_int ((k + 1) * 2 ^ nat (- ?e) - 1) * ?u"
      by (simp add: algebra_simps)
    from hi ub have "t < (of_int k + 1 - ?u) + ?u / 2" by simp
    with binary64_le_grid [OF tnz g] have "binary64 t \<le> of_int k + 1 - ?u" by simp
    with ub show ?thesis by simp
  qed
  from below above show ?thesis by simp
qed

lemma microsecond_in_range:
  assumes "0 \<le> x" and "x \<le> 99999925 / 100"
  shows "0 \<le> round_half_even (binary64 x) \<and> round_half_even (binary64 x) \<le> 999999"
proof (cases "x = 0")
  case True
  then show ?thesis by (simp add: binary64_def round_half_even_def)
next
  case False
  let ?u = "(2::rat) powi ulp_exponent x"
  from assms have "\<bar>x\<bar> < 2 powi 20" by simp
  then have "ulp_exponent x \<le> - 33"
    using ulp_exponent_le [OF False, of 20] by simp
  then have "?u \<le> 2 powi (- 33)"
    by (intro power_int_increasing) simp_all
  then have "?u / 2 \<le> 1 / 17179869184" by simp
  with binary64_error [of x] have "binary64 x \<le> x + 1 / 17179869184" by linarith
  with assms(2) have "binary64 x < of_int 999999 + 1 / 2" by simp
  then have up: "round_half_even (binary64 x) \<le> 999999" by (rule rhe_le)
  have "(0::rat) = of_int 0 * ?u" by simp
  from binary64_ge_grid [OF False this] assms(1) have "0 \<le> binary64 x" by simp
  then have "of_int 0 \<le> binary64 x" by simp
  then have "0 \<le> round_half_even (binary64 x)" by (rule rhe_ge)
  with up show ?thesis by simp
qed

lemma timeval_second:
  assumes "0 \<le> n" and "n < 2 ^ 53"
  shows "fst (timeval (binary64 (of_int n / 1000000))) = n div 1000000"
proof (cases "n = 0")
  case True
  then show ?thesis
    by (simp add: binary64_def timeval_def modf_intpart_def round_half_even_def)
next
  case False
  with assms have pos: "0 < n" by simp
  let ?d = "binary64 (of_int n / 1000000)"
  let ?k = "n div 1000000"
  from quotient_below_next_second [OF pos assms(2)]
  have lo: "of_int ?k \<le> ?d" and hi: "?d \<le> of_int ?k + 99999925 / 100000000"
    by simp_all
  from assms(1) have k0: "0 \<le> ?k" by (simp add: pos_imp_zdiv_nonneg_iff)
  with lo have d0: "0 \<le> ?d"
    using of_int_0_le_iff [of ?k, where ?'a = rat] by linarith
  from lo hi have "\<lfloor>?d\<rfloor> = ?k"
    by (intro floor_unique) simp_all
  with d0 have tr: "modf_intpart ?d = ?k" by (simp add: modf_intpart_def)
  let ?x = "(?d - of_int ?k) * 1000000"
  from lo hi have "0 \<le> ?x" "?x \<le> 99999925 / 100" by simp_all
  then have "0 \<le> round_half_even (binary64 ?x) \<and> round_half_even (binary64 ?x) \<le> 999999"
    by (rule microsecond_in_range)
  then show ?thesis
    by (simp add: timeval_def tr Let_def)
qed

lemma float_of_int_exact:
  assumes "\<bar>n\<bar> < 2 ^ 53"
  shows "float_of_int n = Inr (of_int n)"
proof -
  have "(of_int \<bar>n\<bar> :: rat) < of_int (2 ^ 53)"
    using assms by (simp only: of_int_less_iff)
  then have "\<bar>of_int n :: rat\<bar> < 2 ^ 53" by simp
  also have "(2::rat) ^ 53 < 2 ^ 1024" by simp
  finally have "\<not> (2::rat) ^ 1024 \<le> \<bar>of_int n\<bar>" by simp
  then show ?thesis
    by (simp add: float_of_int_def binary64_of_int [OF assms] Let_def)
qed

lemma convert_time_exact:
  assumes "0 \<le> n" and "n < 2 ^ 53"
  shows "convert_time zone n =
           (case zone (n div 1000000) of
              Inl e \<Rightarrow> Inl e
            | Inr (wall, off) \<Rightarrow> Inr (wall @ off))"
proof -
  from assms have "\<bar>n\<bar> < 2 ^ 53" by simp
  then have f: "float_of_int n = Inr (of_int n)" by (rule float_of_int_exact)
  obtain sec us where tv: "timeval (binary64 (of_int n / 1000000)) = (sec, us)"
    by (cases "timeval (binary64 (of_int n / 1000000))")
  with timeval_second [OF assms] have sec: "sec = n div 1000000" by simp
  show ?thesis
    by (simp add: convert_time_def f TEN_E5_def fromtimestamp_def tv sec datetime_to_str_def
          isoformat_def split: sum.splits prod.splits)
qed

section \<open>Checklists\<close>

text \<open>
  C5. For a checklist whose item texts contain no newline, the lines of the rendered
  content are, in the order of the items, the item texts prefixed by \<open>+ \<close> for a checked
  item and by \<open>- \<close> for an unchecked one; so there are as many lines as items.
\<close>

theorem convert_list_lines:
  assumes "\<forall>item \<in> set items. NL \<notin> set (item_text item)"
  shows "text_lines (convert_list items)
           = map (\<lambda>item. (if isChecked item then ''+ '' else ''- '') @ item_text item) items
         \<and> length (text_lines (convert_list items)) = length items"
proof -
  let ?line = "\<lambda>item. join '' '' [if isChecked item then ''+'' else ''-'', item_text item]"
  have "\<forall>x \<in> set (map ?line items). x \<noteq> [] \<and> NL \<notin> set x"
    using assms by (auto simp: NL_def)
  then have "text_lines (join [NL] (map ?line items)) = map ?line items"
    by (rule text_lines_join)
  then show ?thesis
    by (simp add: convert_list_def)
qed

theorem convert_list_lines_witness:
  "list_all (\<lambda>item. NL \<notin> set (item_text item))
     (case listContent groceries of Some l \<Rightarrow> l | None \<Rightarrow> [])
   \<and> text_lines (convert_list (case listContent groceries of Some l \<Rightarrow> l | None \<Rightarrow> []))
       = [''- milk'', ''+ eggs'']
   \<and> length (text_lines (convert_list (case listContent groceries of Some l \<Rightarrow> l | None \<Rightarrow> [])))
       = 2"
  using convert_list_lines [of "case listContent groceries of Some l \<Rightarrow> l | None \<Rightarrow> []"]
  by (simp add: groceries_def NL_def)

section \<open>Annotations\<close>

lemma annotations_loop_weblinks:
  "\<forall>ann \<in> set anns. ann_source ann = ''WEBLINK'' \<Longrightarrow>
     annotations_loop anns acc = Inr (acc @ map ann_convert_weblink anns)"
  by (induction anns arbitrary: acc) (auto simp: converters_def)

text \<open>
  C3. For a note whose annotations are all of kind \<open>WEBLINK\<close>: with no annotation
  (the list empty or absent) the result is the empty string; otherwise it is the
  newline-join of one empty line and one block per annotation in input order, each
  block being \<open>[title](url)\<close>, a newline, and \<open>> description\<close>.
\<close>

theorem convert_note_annotations_weblinks:
  assumes "\<forall>ann \<in> set (note_annotations note). ann_source ann = ''WEBLINK''"
  shows "(note_annotations note = [] \<longrightarrow> convert_note_annotations note = Inr [])
       \<and> (note_annotations note \<noteq> [] \<longrightarrow>
            convert_note_annotations note
              = Inr (join [NL]
                  ([] # map (\<lambda>ann. ''['' @ ann_title ann @ '']('' @ ann_url ann @ '')'' @ [NL]
                                     @ ''> '' @ ann_description ann)
                          (note_annotations note))))"
proof (cases "annotations note")
  case None
  then show ?thesis
    by (simp add: convert_note_annotations_def note_annotations_def)
next
  case (Some anns)
  with assms have "annotations_loop anns [[]] = Inr ([[]] @ map ann_convert_weblink anns)"
    by (intro annotations_loop_weblinks) (simp add: note_annotations_def)
  moreover have "map ann_convert_weblink anns
      = map (\<lambda>ann. ''['' @ ann_title ann @ '']('' @ ann_url ann @ '')'' @ [NL]
                     @ ''> '' @ ann_description ann) anns"
    by (simp add: ann_convert_weblink_def)
  ultimately show ?thesis using Some
    by (simp add: convert_note_annotations_def note_annotations_def del: join.simps(3))
qed

theorem convert_note_annotations_weblinks_witness:
  "map ann_source (note_annotations linked) = [''WEBLINK'', ''WEBLINK'']
   \<and> note_annotations linked \<noteq> []
   \<and> convert_note_annotations linked
       = Inr ([NL] @ ''[A](http://a)'' @ [NL] @ ''> first'' @ [NL]
              @ ''[B](http://b)'' @ [NL] @ ''> second'')
   \<and> note_annotations hello = []
   \<and> convert_note_annotations hello = Inr []"
  using convert_note_annotations_weblinks [of linked]
    convert_note_annotations_weblinks [of hello]
  by (simp add: linked_def hello_def note_annotations_def)

section \<open>Metadata\<close>

text \<open>
  C6. For every combination of the three flags, the pinned, archived and trashed
  dates of the metadata record are the modification timestamp where the flag is
  true and null where it is false; \<open>convert_metadata\<close> builds the record from the
  note's flags and its modification timestamp.
\<close>

theorem new_tbundle_meta_dates:
  "pinnedDate (net_shinyfrog_bear (new_tbundle_meta uid created_ts mod_ts p a t))
     = (if p then Some mod_ts else None)
   \<and> archivedDate (net_shinyfrog_bear (new_tbundle_meta uid created_ts mod_ts p a t))
     = (if a then Some mod_ts else None)
   \<and> trashedDate (net_shinyfrog_bear (new_tbundle_meta uid created_ts mod_ts p a t))
     = (if t then Some mod_ts else None)
   \<and> modificationDate (net_shinyfrog_bear (new_tbundle_meta uid created_ts mod_ts p a t))
     = mod_ts
   \<and> (convert_time zone (userEditedTimestampUsec note) = Inr mod_ts \<longrightarrow>
        convert_metadata zone uid note created_ts
          = Inr (new_tbundle_meta uid created_ts mod_ts
                   (isPinned note) (isArchived note) (isTrashed note)))"
  by (simp add: new_tbundle_meta_def convert_metadata_def)

theorem new_tbundle_meta_dates_witness:
  "convert_time utc (userEditedTimestampUsec groceries) = Inr ''2021-02-03T04:05:06+00:00''
   \<and> (case convert_metadata utc ''u'' groceries ''2020-01-01T00:00:00+00:00'' of
        Inl e \<Rightarrow> False
      | Inr meta \<Rightarrow>
          pinnedDate (net_shinyfrog_bear meta) = Some ''2021-02-03T04:05:06+00:00''
          \<and> archivedDate (net_shinyfrog_bear meta) = None
          \<and> trashedDate (net_shinyfrog_bear meta) = None)"
proof -
  have t: "convert_time utc (userEditedTimestampUsec groceries)
             = Inr ''2021-02-03T04:05:06+00:00''"
    by (simp add: groceries_def convert_time_exact utc_def)
  have flags: "isPinned groceries" "\<not> isArchived groceries" "\<not> isTrashed groceries"
    by (simp_all add: groceries_def)
  from new_tbundle_meta_dates [of "''u''" "''2020-01-01T00:00:00+00:00''"
      "''2021-02-03T04:05:06+00:00''" True False False utc groceries] t flags
  show ?thesis by simp
qed

section \<open>Title and body\<close>

text \<open>
  C4. When the content is selected and the annotations convert: for a non-empty
  title the first body block is the title after \<open># \<close> and the derived title is the
  raw title; for an empty title the derived title is the first line of the content,
  and the body starts with the content itself, with no heading block.
\<close>

theorem convert_note_text_title:
  assumes "select_content note = Some content"
    and "convert_note_annotations note = Inr anns"
  shows "(title note \<noteq> [] \<longrightarrow>
            convert_note_text note ignore_colors
              = Inr (title note,
                     [''# '' @ title note, content, anns] @ color_tag note ignore_colors))
       \<and> (title note = [] \<longrightarrow>
            convert_note_text note ignore_colors
              = Inr (takeWhile (\<lambda>c. c \<noteq> NL) content,
                     [content, anns] @ color_tag note ignore_colors))"
  using assms
  by (simp add: convert_note_text_def color_tag_def hd_split_on)

theorem convert_note_text_title_witness:
  "select_content groceries = Some (''- milk'' @ [NL] @ ''+ eggs'')
   \<and> convert_note_annotations groceries = Inr []
   \<and> title groceries \<noteq> []
   \<and> convert_note_text groceries False
       = Inr (''Groceries'', [''# Groceries'', ''- milk'' @ [NL] @ ''+ eggs'', []])
   \<and> select_content hello = Some ''Hello world''
   \<and> convert_note_annotations hello = Inr []
   \<and> title hello = []
   \<and> convert_note_text hello False = Inr (''Hello world'', [''Hello world'', [], ''#RED''])"
proof -
  have g1: "select_content groceries = Some (''- milk'' @ [NL] @ ''+ eggs'')"
    by (simp add: select_content_def groceries_def convert_list_def)
  have g2: "convert_note_annotations groceries = Inr []"
    by (simp add: convert_note_annotations_def groceries_def)
  have h1: "select_content hello = Some ''Hello world''"
    by (simp add: select_content_def hello_def)
  have h2: "convert_note_annotations hello = Inr []"
    by (simp add: convert_note_annotations_def hello_def)
  have g3: "title groceries = ''Groceries''" "color_tag groceries False = []"
    by (simp_all add: groceries_def color_tag_def)
  have h4: "title hello = []" "color_tag hello False = [''#RED'']"
    by (simp_all add: hello_def color_tag_def)
  from convert_note_text_title [OF g1 g2, of False] convert_note_text_title [OF h1 h2, of False]
  show ?thesis
    by (simp add: g1 g2 h1 h2 g3 h4 NL_def)
qed

text \<open>
  C10. When a note has both a plain text and a checklist, the plain text is the
  content, the result is the one of the same note without its checklist, and no
  error arises from the body (the conversion succeeds when the annotations convert).
\<close>

theorem convert_note_text_prefers_text:
  assumes "textContent note = Some t"
    and "listContent note = Some items"
  shows "select_content note = Some t
       \<and> convert_note_text note ignore_colors
           = convert_note_text (note\<lparr>listContent := None\<rparr>) ignore_colors
       \<and> (convert_note_annotations note = Inr anns \<longrightarrow>
            convert_note_text note ignore_colors
              = Inr (if title note \<noteq> [] then title note else takeWhile (\<lambda>c. c \<noteq> NL) t,
                     (if title note \<noteq> [] then [''# '' @ title note] else [])
                       @ [t, anns] @ color_tag note ignore_colors))"
proof -
  have sel: "select_content note = Some t"
    using assms(1) by (simp add: select_content_def)
  have sel': "select_content (note\<lparr>listContent := None\<rparr>) = Some t"
    using assms(1) by (simp add: select_content_def)
  have ann: "convert_note_annotations (note\<lparr>listContent := None\<rparr>)
               = convert_note_annotations note"
    by (simp add: convert_note_annotations_def)
  have same: "convert_note_text note ignore_colors
                = convert_note_text (note\<lparr>listContent := None\<rparr>) ignore_colors"
    by (simp add: convert_note_text_def sel sel' ann Let_def split: sum.splits)
  have res: "convert_note_text note ignore_colors
              = Inr (if title note \<noteq> [] then title note else takeWhile (\<lambda>c. c \<noteq> NL) t,
                     (if title note \<noteq> [] then [''# '' @ title note] else [])
                       @ [t, anns] @ color_tag note ignore_colors)"
    if "convert_note_annotations note = Inr anns"
    using that by (simp add: convert_note_text_def sel color_tag_def hd_split_on)
  from sel same res show ?thesis by blast
qed

theorem convert_note_text_prefers_text_witness:
  "textContent both_bodies = Some ''plain''
   \<and> listContent both_bodies = Some [\<lparr>item_text = ''milk'', isChecked = False\<rparr>]
   \<and> convert_note_annotations both_bodies = Inr []
   \<and> convert_note_text both_bodies False = Inr (''plain'', [''plain'', []])"
proof -
  have b1: "textContent both_bodies = Some ''plain''"
    and b2: "listContent both_bodies = Some [\<lparr>item_text = ''milk'', isChecked = False\<rparr>]"
    by (simp_all add: both_bodies_def)
  have b3: "convert_note_annotations both_bodies = Inr []"
    by (simp add: convert_note_annotations_def both_bodies_def)
  have b4: "title both_bodies = []" "color_tag both_bodies False = []"
    by (simp_all add: both_bodies_def color_tag_def)
  from convert_note_text_prefers_text [OF b1 b2, of False "[]"]
  show ?thesis
    by (auto simp: b1 b2 b3 b4 NL_def)
qed

section \<open>Unknown annotation kinds\<close>

lemma converters_None: "converters k = None \<longleftrightarrow> k \<noteq> ''WEBLINK''"
  by (simp add: converters_def)

lemma annotations_loop_unknown:
  "find (\<lambda>ann. ann_source ann \<noteq> ''WEBLINK'') anns = Some bad \<Longrightarrow>
     annotations_loop anns acc = Inl (unknown_annotation_error bad)"
proof (induction anns arbitrary: acc)
  case Nil
  then show ?case by simp
next
  case (Cons a anns)
  show ?case
  proof (cases "ann_source a = ''WEBLINK''")
    case True
    with Cons show ?thesis by (simp add: converters_def)
  next
    case False
    with Cons.prems have "bad = a" by simp
    with False show ?thesis
      by (simp add: converters_def unknown_annotation_error_def)
  qed
qed

lemma find_first:
  "x \<in> set xs \<Longrightarrow> P x \<Longrightarrow> \<exists>y \<in> set xs. P y \<and> find P xs = Some y"
  by (induction xs) auto

text \<open>
  C1, as the code has it. For a note with an annotation whose source is not
  \<open>WEBLINK\<close>, the annotation converter fails with the unknown-annotation error
  carrying the source of the first such annotation; so does \<open>convert_note_text\<close>
  when the note has a body, and \<open>process_note\<close> when moreover the timestamp
  converts, leaving the file system as it was. The error names that source; it does
  not name the note.
\<close>

theorem unknown_annotation_aborts:
  assumes "annotations note = Some anns"
    and "ann \<in> set anns"
    and "ann_source ann \<noteq> ''WEBLINK''"
  shows "\<exists>bad \<in> set anns.
           ann_source bad \<noteq> ''WEBLINK''
         \<and> find (\<lambda>a. ann_source a \<noteq> ''WEBLINK'') anns = Some bad
         \<and> convert_note_annotations note = Inl (unknown_annotation_error bad)
         \<and> names_str (unknown_annotation_error bad) (ann_source bad)
         \<and> \<not> names_note (unknown_annotation_error bad) note
         \<and> (select_content note \<noteq> None \<longrightarrow>
               convert_note_text note ignore_colors = Inl (unknown_annotation_error bad))
         \<and> (select_content note \<noteq> None \<longrightarrow>
             \<not> isl (convert_time zone (userEditedTimestampUsec note)) \<longrightarrow>
               process_note zone uid suffix_uid note created_ts srcpath outdir
                 ignore_colors s = (Some (unknown_annotation_error bad), s))"
proof -
  from find_first [of ann anns "\<lambda>a. ann_source a \<noteq> ''WEBLINK''"] assms(2,3)
  obtain bad where bad: "bad \<in> set anns" "ann_source bad \<noteq> ''WEBLINK''"
    "find (\<lambda>a. ann_source a \<noteq> ''WEBLINK'') anns = Some bad"
    by blast
  have conv: "convert_note_annotations note = Inl (unknown_annotation_error bad)"
    using assms(1) annotations_loop_unknown [OF bad(3), of "[[]]"]
    by (simp add: convert_note_annotations_def)
  have nms: "names_str (unknown_annotation_error bad) (ann_source bad)"
    "\<not> names_note (unknown_annotation_error bad) note"
    by (simp_all add: names_str_def names_note_def error_args_def unknown_annotation_error_def)
  have ctext: "convert_note_text note ignore_colors = Inl (unknown_annotation_error bad)"
    if "select_content note \<noteq> None"
    using that conv by (auto simp: convert_note_text_def split: prod.splits)
  have prc: "process_note zone uid suffix_uid note created_ts srcpath outdir
                 ignore_colors s = (Some (unknown_annotation_error bad), s)"
    if "select_content note \<noteq> None"
      "\<not> isl (convert_time zone (userEditedTimestampUsec note))"
    using that ctext
    by (auto simp: process_note_def convert_metadata_def split: sum.splits)
  from bad conv nms ctext prc show ?thesis by blast
qed

theorem unknown_annotation_aborts_witness:
  "annotations sheet_note \<noteq> None
   \<and> sheet_ann \<in> set (note_annotations sheet_note)
   \<and> ann_source sheet_ann \<noteq> ''WEBLINK''
   \<and> process_note utc ''u'' ''v'' sheet_note ''2020-01-01T00:00:00+00:00''
         keep_dir out_dir False disk
       = (Some (unknown_annotation_error sheet_ann), disk)"
proof -
  let ?anns = "[\<lparr>ann_source = ''WEBLINK'', ann_title = ''A'', ann_url = ''http://a'',
                  ann_description = ''first''\<rparr>, sheet_ann]"
  have a1: "annotations sheet_note = Some ?anns"
    by (simp add: sheet_note_def)
  have a2: "sheet_ann \<in> set ?anns" by simp
  have a3: "ann_source sheet_ann \<noteq> ''WEBLINK''"
    by (simp add: sheet_ann_def)
  have a4: "find (\<lambda>a. ann_source a \<noteq> ''WEBLINK'') ?anns = Some sheet_ann"
    by (simp add: sheet_ann_def)
  have a5: "select_content sheet_note \<noteq> None"
    by (simp add: select_content_def sheet_note_def)
  have a6: "\<not> isl (convert_time utc (userEditedTimestampUsec sheet_note))"
    by (simp add: sheet_note_def convert_time_exact utc_def)
  from unknown_annotation_aborts [OF a1 a2 a3, of False utc "''u''" "''v''"
      "''2020-01-01T00:00:00+00:00''" keep_dir out_dir disk] a4 a5 a6
  have "process_note utc ''u'' ''v'' sheet_note ''2020-01-01T00:00:00+00:00''
         keep_dir out_dir False disk = (Some (unknown_annotation_error sheet_ann), disk)"
    by auto
  with a1 a2 a3 show ?thesis
    by (simp add: note_annotations_def)
qed

text \<open>
  The error raised for the example note with a \<open>SHEETS\<close> annotation carries the
  source and nothing else: the note is not among the values of its message.
\<close>

theorem unknown_annotation_names_note_counterexample:
  "process_note utc ''u'' ''v'' sheet_note ''2020-01-01T00:00:00+00:00''
      keep_dir out_dir False disk
     = (Some (ConversionError unknown_annotation_fmt [ArgStr ''SHEETS'']), disk)
   \<and> \<not> names_note (ConversionError unknown_annotation_fmt [ArgStr ''SHEETS'']) sheet_note"
proof -
  have "convert_note_annotations sheet_note
          = Inl (ConversionError unknown_annotation_fmt [ArgStr ''SHEETS''])"
    by (simp add: convert_note_annotations_def sheet_note_def sheet_ann_def converters_def)
  moreover have "select_content sheet_note = Some ''numbers''"
    by (simp add: select_content_def sheet_note_def)
  ultimately have "convert_note_text sheet_note False
          = Inl (ConversionError unknown_annotation_fmt [ArgStr ''SHEETS''])"
    by (simp add: convert_note_text_def split: prod.splits)
  moreover have "convert_time utc (userEditedTimestampUsec sheet_note)
          = Inr ''2021-02-03T04:05:06+00:00''"
    by (simp add: sheet_note_def convert_time_exact utc_def)
  ultimately show ?thesis
    by (simp add: process_note_def convert_metadata_def names_note_def error_args_def)
qed

section \<open>Missing attachments\<close>

lemma walk_plain: "''..'' \<notin> set cs \<Longrightarrow> walk s r cur cs = Some (cur @ cs)"
  by (induction cs arbitrary: cur) auto

lemma lookup_file_plain: "''..'' \<notin> set (parts p) \<Longrightarrow> lookup_file s p = files s p"
  by (simp add: lookup_file_def walk_plain)

lemma attachments_loop_stops:
  "find (\<lambda>a. is_file s (joinpath srcpath (filePath a)) \<noteq> Inr True) atts = Some first \<Longrightarrow>
     attachments_loop note srcpath s atts acc = Inl (attachment_error note srcpath s first)"
proof (induction atts arbitrary: acc)
  case Nil
  then show ?case by simp
next
  case (Cons a atts)
  obtain assets embeds where acc: "acc = (assets, embeds)" by (cases acc)
  show ?case
  proof (cases "is_file s (joinpath srcpath (filePath a)) = Inr True")
    case True
    with Cons acc show ?thesis by (simp add: Let_def)
  next
    case False
    with Cons.prems have "first = a" by simp
    with False acc show ?thesis
      by (auto simp: Let_def attachment_error_def missing_file_error_def split: sum.splits)
  qed
qed

lemma joinpath_simple:
  "joinpath (Path r cs) ''photo.jpg'' = Path r (cs @ [''photo.jpg''])"
  "joinpath (Path r cs) ''gone.jpg'' = Path r (cs @ [''gone.jpg''])"
  by (simp_all add: joinpath_def root_of_def parse_parts_def)

text \<open>
  C2, as the code has it. For a note with an attachment whose file check does not
  return true, the attachment resolver fails at the first such attachment: with the
  missing-file error carrying that path and the note when the check returns false,
  with the error of the check when it raises. \<open>process_note\<close> fails and leaves the
  file system as it was; its error is the resolver's when the metadata and the text
  convert, and the error of the earlier stage otherwise.
\<close>

theorem missing_attachment_aborts:
  assumes "attachments note = Some atts"
    and "att \<in> set atts"
    and "is_file s (joinpath srcpath (filePath att)) \<noteq> Inr True"
  shows "\<exists>first \<in> set atts.
           find (\<lambda>a. is_file s (joinpath srcpath (filePath a)) \<noteq> Inr True) atts = Some first
         \<and> convert_note_attachments note srcpath s
             = Inl (attachment_error note srcpath s first)
         \<and> (is_file s (joinpath srcpath (filePath first)) = Inr False \<longrightarrow>
               attachment_error note srcpath s first = missing_file_error note srcpath first
             \<and> names_path (missing_file_error note srcpath first)
                 (joinpath srcpath (filePath first))
             \<and> names_note (missing_file_error note srcpath first) note)
         \<and> fst (process_note zone uid suffix_uid note created_ts srcpath outdir
                  ignore_colors s) \<noteq> None
         \<and> snd (process_note zone uid suffix_uid note created_ts srcpath outdir
                  ignore_colors s) = s
         \<and> (\<not> isl (convert_metadata zone uid note created_ts) \<longrightarrow>
             \<not> isl (convert_note_text note ignore_colors) \<longrightarrow>
               process_note zone uid suffix_uid note created_ts srcpath outdir
                 ignore_colors s = (Some (attachment_error note srcpath s first), s))"
proof -
  from find_first [of att atts "\<lambda>a. is_file s (joinpath srcpath (filePath a)) \<noteq> Inr True"]
    assms(2,3)
  obtain first where m: "first \<in> set atts"
    "find (\<lambda>a. is_file s (joinpath srcpath (filePath a)) \<noteq> Inr True) atts = Some first"
    by blast
  let ?e = "attachment_error note srcpath s first"
  let ?m = "missing_file_error note srcpath first"
  let ?p = "process_note zone uid suffix_uid note created_ts srcpath outdir ignore_colors s"
  have conv: "convert_note_attachments note srcpath s = Inl ?e"
    using assms(1) attachments_loop_stops [OF m(2), of "note" "([], [])"]
    by (simp add: convert_note_attachments_def)
  have nms: "?e = ?m \<and> names_path ?m (joinpath srcpath (filePath first)) \<and> names_note ?m note"
    if "is_file s (joinpath srcpath (filePath first)) = Inr False"
    using that
    by (simp add: attachment_error_def names_path_def names_note_def error_args_def
          missing_file_error_def)
  have fails: "fst ?p \<noteq> None \<and> snd ?p = s"
    using conv by (auto simp: process_note_def split: sum.splits prod.splits)
  have exact: "?p = (Some ?e, s)"
    if "\<not> isl (convert_metadata zone uid note created_ts)"
      "\<not> isl (convert_note_text note ignore_colors)"
    using that conv by (auto simp: process_note_def split: sum.splits prod.splits)
  from m conv nms fails exact show ?thesis by blast
qed

theorem missing_attachment_aborts_witness:
  "attachments dangling = Some [\<lparr>filePath = ''photo.jpg''\<rparr>, \<lparr>filePath = ''gone.jpg''\<rparr>]
   \<and> is_file disk (joinpath keep_dir ''photo.jpg'') = Inr True
   \<and> is_file disk (joinpath keep_dir ''gone.jpg'') = Inr False
   \<and> convert_note_attachments dangling keep_dir disk
       = Inl (missing_file_error dangling keep_dir \<lparr>filePath = ''gone.jpg''\<rparr>)
   \<and> process_note utc ''u'' ''v'' dangling ''2020-01-01T00:00:00+00:00''
         keep_dir out_dir False disk
       = (Some (missing_file_error dangling keep_dir \<lparr>filePath = ''gone.jpg''\<rparr>), disk)"
proof -
  let ?atts = "[\<lparr>filePath = ''photo.jpg''\<rparr>, \<lparr>filePath = ''gone.jpg''\<rparr>]"
  have a1: "attachments dangling = Some ?atts"
    by (simp add: dangling_def)
  have a2: "\<lparr>filePath = ''gone.jpg''\<rparr> \<in> set ?atts" by simp
  have f1: "is_file disk (joinpath keep_dir ''photo.jpg'') = Inr True"
    by (simp add: keep_dir_def joinpath_simple is_file_def lookup_file_plain disk_def)
  have f2: "is_file disk (joinpath keep_dir ''gone.jpg'') = Inr False"
    by (simp add: keep_dir_def joinpath_simple is_file_def lookup_file_plain disk_def)
  have a3: "is_file disk (joinpath keep_dir (filePath \<lparr>filePath = ''gone.jpg''\<rparr>)) \<noteq> Inr True"
    using f2 by simp
  have a4: "find (\<lambda>a. is_file disk (joinpath keep_dir (filePath a)) \<noteq> Inr True) ?atts
              = Some \<lparr>filePath = ''gone.jpg''\<rparr>"
    using f1 f2 by simp
  have a5: "attachment_error dangling keep_dir disk \<lparr>filePath = ''gone.jpg''\<rparr>
              = missing_file_error dangling keep_dir \<lparr>filePath = ''gone.jpg''\<rparr>"
    using f2 by (simp add: attachment_error_def)
  have a6: "\<not> isl (convert_metadata utc ''u'' dangling ''2020-01-01T00:00:00+00:00'')"
    by (simp add: convert_metadata_def dangling_def convert_time_exact utc_def)
  have a7: "\<not> isl (convert_note_text dangling False)"
    by (simp add: convert_note_text_def select_content_def convert_note_annotations_def
          dangling_def)
  from missing_attachment_aborts [OF a1 a2 a3, of utc "''u''" "''v''"
      "''2020-01-01T00:00:00+00:00''" out_dir False] a4 a5 a6 a7
  have "convert_note_attachments dangling keep_dir disk
          = Inl (missing_file_error dangling keep_dir \<lparr>filePath = ''gone.jpg''\<rparr>)
      \<and> process_note utc ''u'' ''v'' dangling ''2020-01-01T00:00:00+00:00''
            keep_dir out_dir False disk
          = (Some (missing_file_error dangling keep_dir \<lparr>filePath = ''gone.jpg''\<rparr>), disk)"
    by auto
  with a1 f1 f2 show ?thesis by simp
qed

text \<open>
  The example note with a \<open>SHEETS\<close> annotation and a missing attachment: the text is
  converted before the attachments are resolved, so the conversion fails with the
  unknown-annotation error, and the missing-file error is not raised.
\<close>

theorem missing_attachment_other_error_counterexample:
  "attachments sheet_dangling = Some [\<lparr>filePath = ''gone.jpg''\<rparr>]
   \<and> is_file disk (joinpath keep_dir ''gone.jpg'') = Inr False
   \<and> process_note utc ''u'' ''v'' sheet_dangling ''2020-01-01T00:00:00+00:00''
         keep_dir out_dir False disk
       = (Some (ConversionError unknown_annotation_fmt [ArgStr ''SHEETS'']), disk)
   \<and> ConversionError unknown_annotation_fmt [ArgStr ''SHEETS'']
       \<noteq> missing_file_error sheet_dangling keep_dir \<lparr>filePath = ''gone.jpg''\<rparr>"
proof -
  have "convert_note_annotations sheet_dangling
          = Inl (ConversionError unknown_annotation_fmt [ArgStr ''SHEETS''])"
    by (simp add: convert_note_annotations_def sheet_dangling_def sheet_ann_def converters_def)
  moreover have "select_content sheet_dangling = Some ''numbers''"
    by (simp add: select_content_def sheet_dangling_def)
  ultimately have "convert_note_text sheet_dangling False
          = Inl (ConversionError unknown_annotation_fmt [ArgStr ''SHEETS''])"
    by (simp add: convert_note_text_def split: prod.splits)
  moreover have "convert_time utc (userEditedTimestampUsec sheet_dangling)
          = Inr ''2021-02-03T04:05:06+00:00''"
    by (simp add: sheet_dangling_def convert_time_exact utc_def)
  ultimately have run: "process_note utc ''u'' ''v'' sheet_dangling ''2020-01-01T00:00:00+00:00''
         keep_dir out_dir False disk
       = (Some (ConversionError unknown_annotation_fmt [ArgStr ''SHEETS'']), disk)"
    by (simp add: process_note_def convert_metadata_def)
  have gone: "is_file disk (joinpath keep_dir ''gone.jpg'') = Inr False"
    by (simp add: keep_dir_def joinpath_simple is_file_def lookup_file_plain disk_def)
  have other: "ConversionError unknown_annotation_fmt [ArgStr ''SHEETS'']
       \<noteq> missing_file_error sheet_dangling keep_dir \<lparr>filePath = ''gone.jpg''\<rparr>"
    by (simp add: missing_file_error_def)
  from run gone other show ?thesis
    by (simp add: sheet_dangling_def)
qed

section \<open>Paths and the frame of the package writer\<close>

lemma root_of_no_slash: "CHR ''/'' \<notin> set t \<Longrightarrow> root_of t = []"
  by (cases t) (auto simp: root_of_def)

lemma parse_parts_component:
  "CHR ''/'' \<notin> set t \<Longrightarrow> t \<noteq> [] \<Longrightarrow> t \<noteq> ''.'' \<Longrightarrow> parse_parts t = [t]"
  by (simp add: parse_parts_def split_on_no_sep)

lemma joinpath_relative:
  "root_of t = [] \<Longrightarrow> joinpath p t = Path (root p) (parts p @ parse_parts t)"
  by (simp add: joinpath_def)

lemma joinpath_component:
  "CHR ''/'' \<notin> set t \<Longrightarrow> t \<noteq> [] \<Longrightarrow> t \<noteq> ''.'' \<Longrightarrow>
     joinpath p t = Path (root p) (parts p @ [t])"
  by (simp add: joinpath_relative root_of_no_slash parse_parts_component)

lemma under_refl: "under d d"
  by (simp add: under_def)

lemma under_extend: "under d (Path r cs) \<Longrightarrow> under d (Path r (cs @ ds))"
proof -
  assume u: "under d (Path r cs)"
  then have "length (take (length (parts d)) cs) = length (parts d)"
    by (simp add: under_def)
  then have "length (parts d) \<le> length cs" by simp
  with u show ?thesis by (simp add: under_def)
qed

lemma under_joinpath: "root_of t = [] \<Longrightarrow> under d p \<Longrightarrow> under d (joinpath p t)"
  using under_extend [of d "root p" "parts p" "parse_parts t"]
  by (simp add: joinpath_relative)

lemma isalnum_slash: "\<not> isalnum (CHR ''/'')"
  by (simp add: isalnum_def)

lemma sanitize_title_no_slash: "CHR ''/'' \<notin> set (sanitize_title ttl)"
proof -
  have "set (take 50 (filter (\<lambda>c. isalnum c \<or> c \<in> set ''._- '') ttl))
          \<subseteq> {c. isalnum c \<or> c \<in> set ''._- ''}"
    using set_take_subset [of 50 "filter (\<lambda>c. isalnum c \<or> c \<in> set ''._- '') ttl"] by auto
  then have "CHR ''/'' \<notin> set (take 50 (filter (\<lambda>c. isalnum c \<or> c \<in> set ''._- '') ttl))"
    using isalnum_slash by auto
  then show ?thesis
    by (simp add: sanitize_title_def TB_EXT_def)
qed

lemma sanitize_title_length: "11 \<le> length (sanitize_title ttl)"
  by (simp add: sanitize_title_def TB_EXT_def)

lemma uuid_str_take8:
  assumes "uuid_str u"
  shows "length (take 8 u) = 8" and "CHR ''/'' \<notin> set (take 8 u)"
proof -
  from assms show "length (take 8 u) = 8" by (simp add: uuid_str_def)
  from assms have "CHR ''/'' \<notin> set u"
    by (auto simp: uuid_str_def list_all_iff)
  then show "CHR ''/'' \<notin> set (take 8 u)"
    using set_take_subset [of 8 u] by auto
qed


lemma untouched_refl: "untouched_outside d s s"
  by (simp add: untouched_outside_def)

lemma untouched_trans:
  "untouched_outside d s s1 \<Longrightarrow> untouched_outside d s1 s2 \<Longrightarrow> untouched_outside d s s2"
  by (auto simp: untouched_outside_def)

lemma mkdir_untouched:
  "under d p \<Longrightarrow> mkdir s p = Inr s' \<Longrightarrow> untouched_outside d s s' \<and> p \<in> dirs s'"
  by (auto simp: mkdir_def untouched_outside_def split: if_splits)

lemma write_file_untouched:
  "under d p \<Longrightarrow> write_file s p c = Inr s' \<Longrightarrow> untouched_outside d s s'"
  by (auto simp: write_file_def untouched_outside_def split: if_splits)

lemma copy_untouched:
  assumes "under d dst" and "root_of (name src) = []" and "copy s src dst = Inr s'"
  shows "untouched_outside d s s'"
proof -
  let ?dst = "if is_dir s dst then joinpath dst (name src) else dst"
  from assms(1,2) have "under d ?dst"
    by (simp add: under_joinpath)
  moreover from assms(3) obtain c where "write_file s ?dst c = Inr s'"
    by (auto simp: copy_def Let_def split: if_splits option.splits)
  ultimately show ?thesis
    by (rule write_file_untouched)
qed

lemma copy_loop_untouched:
  "under d asset_dir \<Longrightarrow> \<forall>a \<in> set assets. root_of (name a) = [] \<Longrightarrow>
     untouched_outside d s (snd (copy_loop asset_dir assets s))"
proof (induction assets arbitrary: s)
  case Nil
  then show ?case by (simp add: untouched_refl)
next
  case (Cons a assets)
  show ?case
  proof (cases "copy s a (joinpath asset_dir (name a))")
    case (Inl e)
    then show ?thesis by (simp add: untouched_refl)
  next
    case (Inr s1)
    from Cons.prems have "under d (joinpath asset_dir (name a))"
      by (simp add: under_joinpath)
    with Cons.prems Inr have "untouched_outside d s s1"
      by (intro copy_untouched [of d _ a s s1]) auto
    moreover from Cons have "untouched_outside d s1 (snd (copy_loop asset_dir assets s1))"
      by simp
    ultimately show ?thesis using Inr
      by (simp add: untouched_trans)
  qed
qed

lemma copy_note_assets_untouched:
  assumes "\<forall>a \<in> set assets. root_of (name a) = []"
  shows "untouched_outside tb_dir s (snd (copy_note_assets tb_dir assets s))"
proof (cases "assets \<noteq> []")
  case False
  then show ?thesis by (simp add: copy_note_assets_def untouched_refl)
next
  case True
  let ?asset_dir = "joinpath tb_dir TB_ASSET_DIR"
  have ua: "under tb_dir ?asset_dir"
    by (simp add: under_joinpath under_refl root_of_def TB_ASSET_DIR_def)
  show ?thesis
  proof (cases "mkdir s ?asset_dir")
    case (Inl e)
    with True show ?thesis by (simp add: copy_note_assets_def untouched_refl)
  next
    case (Inr s2)
    from mkdir_untouched [OF ua Inr] have "untouched_outside tb_dir s s2" by simp
    moreover from ua assms
    have "untouched_outside tb_dir s2 (snd (copy_loop ?asset_dir assets s2))"
      by (rule copy_loop_untouched)
    ultimately show ?thesis using True Inr
      by (simp add: copy_note_assets_def untouched_trans)
  qed
qed

lemma write_note_files_untouched:
  "untouched_outside tb_dir s (snd (write_note_files tb_dir meta text s))"
proof -
  have um: "under tb_dir (joinpath tb_dir TB_METADATA_FILE)"
    and uc: "under tb_dir (joinpath tb_dir TB_CONTENT_FILE)"
    by (simp_all add: under_joinpath under_refl root_of_def TB_METADATA_FILE_def
          TB_CONTENT_FILE_def)
  show ?thesis
  proof (cases "write_file s (joinpath tb_dir TB_METADATA_FILE) (JsonDumps meta)")
    case (Inl e)
    then show ?thesis by (simp add: write_note_files_def untouched_refl)
  next
    case s4: (Inr s4)
    then have u4: "untouched_outside tb_dir s s4"
      using write_file_untouched [OF um] by simp
    show ?thesis
    proof (cases "write_file s4 (joinpath tb_dir TB_CONTENT_FILE) (Data (join [NL] text))")
      case (Inl e)
      with s4 u4 show ?thesis by (simp add: write_note_files_def)
    next
      case (Inr s5)
      then have "untouched_outside tb_dir s4 s5"
        using write_file_untouched [OF uc] by simp
      with u4 have "untouched_outside tb_dir s s5" by (rule untouched_trans)
      with s4 Inr show ?thesis by (simp add: write_note_files_def)
    qed
  qed
qed

lemma write_textbundle_untouched:
  assumes names: "\<forall>a \<in> set assets. root_of (name a) = []"
    and dir: "tb_dir = joinpath outdir (bundle_title s outdir suffix_uid ttl)"
  shows "untouched_outside tb_dir s
           (snd (write_textbundle suffix_uid ttl text meta assets outdir s))
       \<and> (\<not> isl (mkdir s tb_dir) \<longrightarrow>
            tb_dir \<in> dirs (snd (write_textbundle suffix_uid ttl text meta assets outdir s)))"
proof (cases "mkdir s tb_dir")
  case (Inl e)
  with dir show ?thesis
    by (simp add: write_textbundle_def untouched_refl)
next
  case (Inr s1)
  let ?res = "write_textbundle suffix_uid ttl text meta assets outdir s"
  have u0: "untouched_outside tb_dir s s1" and d0: "tb_dir \<in> dirs s1"
    using mkdir_untouched [OF under_refl Inr] by simp_all
  obtain r3 s3 where mid: "copy_note_assets tb_dir assets s1 = (r3, s3)"
    by (cases "copy_note_assets tb_dir assets s1")
  with copy_note_assets_untouched [OF names, of tb_dir s1]
  have u13: "untouched_outside tb_dir s1 s3" by simp
  have u3: "untouched_outside tb_dir s3 (snd ?res)"
  proof (cases r3)
    case (Some e)
    with Inr mid dir show ?thesis
      by (simp add: write_textbundle_def untouched_refl)
  next
    case None
    with Inr mid dir have "?res = write_note_files tb_dir meta text s3"
      by (simp add: write_textbundle_def)
    then show ?thesis
      by (simp add: write_note_files_untouched)
  qed
  from u0 u13 u3 have "untouched_outside tb_dir s (snd ?res)"
    by (blast intro: untouched_trans)
  moreover from u13 u3 d0 have "tb_dir \<in> dirs (snd ?res)"
    by (auto simp: untouched_outside_def)
  ultimately show ?thesis by simp
qed


lemma long_name_not_dot: "2 \<le> length t \<Longrightarrow> t @ x \<noteq> [] \<and> t @ x \<noteq> ''.''"
proof -
  assume long: "2 \<le> length t"
  have "t @ x \<noteq> ''.''"
  proof
    assume "t @ x = ''.''"
    then have "length (t @ x) = length ''.''" by (rule arg_cong)
    with long show False by simp
  qed
  moreover from long have "t \<noteq> []" by auto
  ultimately show ?thesis by simp
qed

lemma name_snoc: "name (Path r (cs @ [c])) = c"
  by (cases cs) (simp_all add: name_def)

lemma under_sibling:
  assumes "under (Path r (cs @ [t])) p" and "sfx \<noteq> []"
  shows "\<not> under (Path r (cs @ [t @ sfx])) p"
proof
  assume "under (Path r (cs @ [t @ sfx])) p"
  with assms(1) have "cs @ [t] = cs @ [t @ sfx]"
    by (simp add: under_def)
  with assms(2) show False by simp
qed

lemma sanitize_Budget: "sanitize_title ''Budget'' = ''Budget.textbundle''"
  by (simp add: sanitize_title_def isalnum_def TB_EXT_def)

lemma joinpath_Budget:
  "joinpath (Path [] [''out'']) ''Budget.textbundle'' = Path [] [''out'', ''Budget.textbundle'']"
  "joinpath (Path [] [''out'']) (''Budget.textbundle'' @ ''1a2b3c4d'')
     = Path [] [''out'', ''Budget.textbundle1a2b3c4d'']"
  by (simp_all add: joinpath_def root_of_def parse_parts_def)

section \<open>Name collisions\<close>

text \<open>
  C9. When the output root exists, the sanitized package name is the name of an
  existing directory in it, and the name with the first 8 characters of the fresh
  identifier appended is free: the package directory is the one with the suffixed
  name, a sibling of the existing one that differs from it by those 8 characters;
  it did not exist before and exists afterwards; and at every path at or below the
  existing directory the files and directories are what they were, whether or not
  the later writes succeed.
\<close>

theorem collision_appends_suffix:
  fixes s :: fs and outdir :: path and ttl suffix_uid :: string
    and blocks :: "string list" and meta :: tbundle and assets :: "path list"
  defines "old_dir \<equiv> joinpath outdir (sanitize_title ttl)"
    and "new_dir \<equiv> joinpath outdir (sanitize_title ttl @ take 8 suffix_uid)"
    and "s' \<equiv> snd (write_textbundle suffix_uid ttl blocks meta assets outdir s)"
  assumes outroot: "is_dir s outdir"
    and coll: "is_dir s old_dir"
    and free: "\<not> exists_path s new_dir"
    and uid: "uuid_str suffix_uid"
    and names: "\<forall>a \<in> set assets. CHR ''/'' \<notin> set (name a)"
  shows "bundle_title s outdir suffix_uid ttl = sanitize_title ttl @ take 8 suffix_uid
       \<and> length (take 8 suffix_uid) = 8
       \<and> new_dir \<noteq> old_dir
       \<and> parent new_dir = parent old_dir
       \<and> name new_dir = name old_dir @ take 8 suffix_uid
       \<and> \<not> is_dir s new_dir
       \<and> is_dir s' new_dir
       \<and> (\<forall>p. under old_dir p \<longrightarrow>
              files s' p = files s p \<and> (is_dir s' p \<longleftrightarrow> is_dir s p))"
proof -
  let ?t = "sanitize_title ttl"
  let ?sfx = "take 8 suffix_uid"
  have len: "length ?sfx = 8" and sfx_slash: "CHR ''/'' \<notin> set ?sfx"
    using uuid_str_take8 [OF uid] by simp_all
  then have sfx: "?sfx \<noteq> []" by auto
  have long: "2 \<le> length ?t"
    using sanitize_title_length [of ttl] by simp
  have t_ok: "CHR ''/'' \<notin> set ?t" "?t \<noteq> []" "?t \<noteq> ''.''"
    using sanitize_title_no_slash [of ttl] long_name_not_dot [OF long, of "[]"] by simp_all
  have ts_ok: "CHR ''/'' \<notin> set (?t @ ?sfx)" "?t @ ?sfx \<noteq> []" "?t @ ?sfx \<noteq> ''.''"
    using t_ok(1) sfx_slash long_name_not_dot [OF long, of ?sfx] by simp_all
  have old: "old_dir = Path (root outdir) (parts outdir @ [?t])"
    unfolding old_dir_def using t_ok by (rule joinpath_component)
  have new: "new_dir = Path (root outdir) (parts outdir @ [?t @ ?sfx])"
    unfolding new_dir_def using ts_ok by (rule joinpath_component)
  have title: "bundle_title s outdir suffix_uid ttl = ?t @ ?sfx"
    using coll by (simp add: bundle_title_def old_dir_def exists_path_def)
  have diff: "new_dir \<noteq> old_dir"
    using sfx by (simp add: old new)
  have par: "parent new_dir = outdir" "parent old_dir = outdir"
    by (simp_all add: old new parent_def)
  have nm: "name new_dir = name old_dir @ ?sfx"
    by (simp add: old new name_snoc)
  have fresh: "\<not> is_dir s new_dir"
    using free by (simp add: exists_path_def)
  have mk: "\<not> isl (mkdir s new_dir)"
    using free outroot par by (simp add: mkdir_def)
  have roots: "\<forall>a \<in> set assets. root_of (name a) = []"
    using names by (simp add: root_of_no_slash)
  have tb: "new_dir = joinpath outdir (bundle_title s outdir suffix_uid ttl)"
    by (simp add: title new_dir_def)
  from write_textbundle_untouched [OF roots tb, of blocks meta] mk
  have unt: "untouched_outside new_dir s s'" and made: "new_dir \<in> dirs s'"
    by (simp_all add: s'_def)
  have frame: "files s' p = files s p \<and> (is_dir s' p \<longleftrightarrow> is_dir s p)"
    if "under old_dir p" for p
  proof -
    from that sfx have "\<not> under new_dir p"
      unfolding old new by (rule under_sibling)
    with unt show ?thesis
      by (simp add: untouched_outside_def is_dir_def)
  qed
  from title len diff par nm fresh made frame show ?thesis
    by (simp add: is_dir_def)
qed

theorem collision_appends_suffix_witness:
  "is_dir disk_taken out_dir
   \<and> is_dir disk_taken (joinpath out_dir (sanitize_title ''Budget''))
   \<and> \<not> exists_path disk_taken (joinpath out_dir (sanitize_title ''Budget'' @ take 8 uuid_example))
   \<and> uuid_str uuid_example
   \<and> list_all (\<lambda>a. CHR ''/'' \<notin> set (name a)) [Path [] [''takeout'', ''Keep'', ''photo.jpg'']]
   \<and> is_dir (snd (write_textbundle uuid_example ''Budget'' [''# Budget'', ''numbers'', []]
                    meta_example [Path [] [''takeout'', ''Keep'', ''photo.jpg'']] out_dir
                    disk_taken))
        (Path [] [''out'', ''Budget.textbundle1a2b3c4d''])
   \<and> files (snd (write_textbundle uuid_example ''Budget'' [''# Budget'', ''numbers'', []]
                    meta_example [Path [] [''takeout'', ''Keep'', ''photo.jpg'']] out_dir
                    disk_taken))
        (Path [] [''out'', ''Budget.textbundle'', ''text.txt'']) = Some (Data ''old'')"
proof -
  have h1: "is_dir disk_taken out_dir"
    by (simp add: is_dir_def disk_taken_def out_dir_def)
  have h2: "is_dir disk_taken (joinpath out_dir (sanitize_title ''Budget''))"
    by (simp add: sanitize_Budget out_dir_def joinpath_Budget is_dir_def disk_taken_def)
  have t8: "take 8 uuid_example = ''1a2b3c4d''"
    by (simp add: uuid_example_def)
  have h3: "\<not> exists_path disk_taken
              (joinpath out_dir (sanitize_title ''Budget'' @ take 8 uuid_example))"
    unfolding t8 sanitize_Budget out_dir_def joinpath_Budget
    by (simp add: exists_path_def is_dir_def lookup_file_plain disk_taken_def)
  have h4: "uuid_str uuid_example"
    by (simp add: uuid_str_def uuid_example_def)
  have h5: "\<forall>a \<in> set [Path [] [''takeout'', ''Keep'', ''photo.jpg'']]. CHR ''/'' \<notin> set (name a)"
    by (simp add: name_def)
  have u: "under (joinpath out_dir (sanitize_title ''Budget''))
             (Path [] [''out'', ''Budget.textbundle'', ''text.txt''])"
    by (simp add: sanitize_Budget out_dir_def joinpath_Budget under_def)
  have old: "files disk_taken (Path [] [''out'', ''Budget.textbundle'', ''text.txt''])
               = Some (Data ''old'')"
    by (simp add: disk_taken_def)
  from collision_appends_suffix [OF h1 h2 h3 h4 h5, of "[''# Budget'', ''numbers'', []]"
      meta_example] u old
  have "is_dir (snd (write_textbundle uuid_example ''Budget'' [''# Budget'', ''numbers'', []]
                    meta_example [Path [] [''takeout'', ''Keep'', ''photo.jpg'']] out_dir
                    disk_taken))
          (joinpath out_dir (sanitize_title ''Budget'' @ take 8 uuid_example))
      \<and> files (snd (write_textbundle uuid_example ''Budget'' [''# Budget'', ''numbers'', []]
                    meta_example [Path [] [''takeout'', ''Keep'', ''photo.jpg'']] out_dir
                    disk_taken))
        (Path [] [''out'', ''Budget.textbundle'', ''text.txt'']) = Some (Data ''old'')"
    by simp
  then show ?thesis
    using h1 h2 h3 h4 h5
    unfolding t8 sanitize_Budget out_dir_def joinpath_Budget
    by simp
qed

section \<open>Embed markers\<close>

text \<open>
  When every attachment is a file, the resolver returns the source paths and one
  marker \<open>[assets/filePath]\<close> per attachment, both in the order of the attachments.
  The writer copies a source file to the asset directory under its base name, which
  is the marker's path when \<open>filePath\<close> is a bare file name.
\<close>

lemma attachments_loop_found:
  "\<forall>att \<in> set atts. is_file s (joinpath srcpath (filePath att)) = Inr True \<Longrightarrow>
     attachments_loop note srcpath s atts (assets, embeds)
       = Inr (assets @ map (\<lambda>att. joinpath srcpath (filePath att)) atts,
              embeds @ map (\<lambda>att. ''['' @ TB_ASSET_DIR @ ''/'' @ filePath att @ '']'') atts)"
  by (induction atts arbitrary: assets embeds) (simp_all add: Let_def)

lemma copy_destination_flat:
  assumes "CHR ''/'' \<notin> set fname" and "fname \<noteq> []" and "fname \<noteq> ''.''"
  shows "joinpath asset_dir (name (joinpath srcpath fname))
           = joinpath asset_dir fname"
  using assms by (simp add: joinpath_component name_snoc)

lemma joinpath_nested:
  "joinpath (Path [] [''takeout'', ''Keep'']) ''sub/img.png''
     = Path [] [''takeout'', ''Keep'', ''sub'', ''img.png'']"
  by (simp add: joinpath_def root_of_def parse_parts_def)

lemma sanitize_Trip: "sanitize_title ''Trip'' = ''Trip.textbundle''"
  by (simp add: sanitize_title_def isalnum_def TB_EXT_def)

lemma joinpath_Trip:
  "joinpath (Path [] [''out'']) ''Trip.textbundle'' = Path [] [''out'', ''Trip.textbundle'']"
  "joinpath (Path [] [''out'', ''Trip.textbundle'']) ''assets''
     = Path [] [''out'', ''Trip.textbundle'', ''assets'']"
  "joinpath (Path [] [''out'', ''Trip.textbundle'', ''assets'']) ''img.png''
     = Path [] [''out'', ''Trip.textbundle'', ''assets'', ''img.png'']"
  "joinpath (Path [] [''out'', ''Trip.textbundle'']) ''info.json''
     = Path [] [''out'', ''Trip.textbundle'', ''info.json'']"
  "joinpath (Path [] [''out'', ''Trip.textbundle'']) ''text.txt''
     = Path [] [''out'', ''Trip.textbundle'', ''text.txt'']"
  by (simp_all add: joinpath_def root_of_def parse_parts_def)

text \<open>
  C8, at a note whose attachment is \<open>sub/img.png\<close>. The conversion succeeds; the body
  ends with the marker \<open>[assets/sub/img.png]\<close>, the file is copied to
  \<open>assets/img.png\<close> in the package, and the package has no file
  \<open>assets/sub/img.png\<close>: the marker does not reference the copied asset.
\<close>

theorem nested_attachment_embed_dangles:
  "convert_note_attachments nested keep_dir disk
     = Inr ([Path [] [''takeout'', ''Keep'', ''sub'', ''img.png'']], [''[assets/sub/img.png]''])
   \<and> fst (process_note utc ''u'' ''v'' nested ''2020-01-01T00:00:00+00:00''
            keep_dir out_dir False disk) = None
   \<and> files (snd (process_note utc ''u'' ''v'' nested ''2020-01-01T00:00:00+00:00''
                   keep_dir out_dir False disk))
        (Path [] [''out'', ''Trip.textbundle'', ''text.txt''])
       = Some (Data (''# Trip'' @ [NL] @ ''photos'' @ [NL] @ [NL] @ ''[assets/sub/img.png]''))
   \<and> files (snd (process_note utc ''u'' ''v'' nested ''2020-01-01T00:00:00+00:00''
                   keep_dir out_dir False disk))
        (Path [] [''out'', ''Trip.textbundle'', ''assets'', ''img.png'']) = Some (Data ''PNG'')
   \<and> files (snd (process_note utc ''u'' ''v'' nested ''2020-01-01T00:00:00+00:00''
                   keep_dir out_dir False disk))
        (Path [] [''out'', ''Trip.textbundle'', ''assets'', ''sub'', ''img.png'']) = None"
proof -
  let ?src = "Path [] [''takeout'', ''Keep'', ''sub'', ''img.png'']"
  let ?tb = "Path [] [''out'', ''Trip.textbundle'']"
  let ?ad = "Path [] [''out'', ''Trip.textbundle'', ''assets'']"
  let ?meta = "new_tbundle_meta ''u'' ''2020-01-01T00:00:00+00:00'' ''2021-02-03T04:05:06+00:00''
                 False False False"
  let ?blocks = "[''# Trip'', ''photos'', [], ''[assets/sub/img.png]'']"
  have att: "convert_note_attachments nested keep_dir disk = Inr ([?src], [''[assets/sub/img.png]''])"
    by (simp add: convert_note_attachments_def nested_def keep_dir_def joinpath_nested
          is_file_def lookup_file_plain disk_def TB_ASSET_DIR_def)
  have meta: "convert_metadata utc ''u'' nested ''2020-01-01T00:00:00+00:00''
                = Inr ?meta"
    by (simp add: convert_metadata_def nested_def convert_time_exact utc_def)
  have ctext: "convert_note_text nested False = Inr (''Trip'', [''# Trip'', ''photos'', []])"
    by (simp add: convert_note_text_def select_content_def convert_note_annotations_def
          nested_def)
  have proc: "process_note utc ''u'' ''v'' nested ''2020-01-01T00:00:00+00:00''
                 keep_dir out_dir False disk
               = write_textbundle ''v'' ''Trip'' ?blocks ?meta [?src] out_dir disk"
    by (simp add: process_note_def att meta ctext)
  have bt: "joinpath out_dir (bundle_title disk out_dir ''v'' ''Trip'') = ?tb"
    by (simp add: bundle_title_def sanitize_Trip out_dir_def joinpath_Trip exists_path_def
          lookup_file_plain is_dir_def disk_def)
  define s1 where "s1 = disk\<lparr>dirs := insert ?tb (dirs disk)\<rparr>"
  define s2 where "s2 = s1\<lparr>dirs := insert ?ad (dirs s1)\<rparr>"
  define s3 where "s3 = s2\<lparr>files := (files s2)(Path [] [''out'', ''Trip.textbundle'', ''assets'', ''img.png'']
                               \<mapsto> Data ''PNG'')\<rparr>"
  define s4 where "s4 = s3\<lparr>files := (files s3)(Path [] [''out'', ''Trip.textbundle'', ''info.json'']
                               \<mapsto> JsonDumps ?meta)\<rparr>"
  define s5 where "s5 = s4\<lparr>files := (files s4)(Path [] [''out'', ''Trip.textbundle'', ''text.txt'']
                               \<mapsto> Data (join [NL] ?blocks))\<rparr>"
  have m1: "mkdir disk ?tb = Inr s1"
    by (simp add: mkdir_def exists_path_def lookup_file_plain is_dir_def parent_def disk_def
          s1_def)
  have m2: "mkdir s1 ?ad = Inr s2"
    by (simp add: mkdir_def exists_path_def lookup_file_plain is_dir_def parent_def disk_def
          s1_def s2_def)
  have c: "copy s2 ?src (joinpath ?ad (name ?src)) = Inr s3"
    by (simp add: copy_def write_file_def name_def joinpath_Trip lookup_file_plain is_dir_def
          parent_def disk_def s1_def s2_def s3_def)
  have assets: "copy_note_assets ?tb [?src] s1 = (None, s3)"
    by (simp add: copy_note_assets_def TB_ASSET_DIR_def joinpath_Trip m2 c)
  have w1: "write_file s3 (Path [] [''out'', ''Trip.textbundle'', ''info.json'']) (JsonDumps ?meta)
              = Inr s4"
    by (simp add: write_file_def is_dir_def parent_def disk_def s1_def s2_def s3_def s4_def)
  have w2: "write_file s4 (Path [] [''out'', ''Trip.textbundle'', ''text.txt''])
              (Data (join [NL] ?blocks)) = Inr s5"
    by (simp add: write_file_def is_dir_def parent_def disk_def s1_def s2_def s3_def s4_def
          s5_def)
  have files: "write_note_files ?tb ?meta ?blocks s3 = (None, s5)"
    by (simp add: write_note_files_def TB_METADATA_FILE_def TB_CONTENT_FILE_def joinpath_Trip
          w1 w2 del: join.simps)
  have run: "write_textbundle ''v'' ''Trip'' ?blocks ?meta [?src] out_dir disk = (None, s5)"
    by (simp add: write_textbundle_def bt m1 assets files)
  have f1: "files s5 (Path [] [''out'', ''Trip.textbundle'', ''text.txt''])
              = Some (Data (''# Trip'' @ [NL] @ ''photos'' @ [NL] @ [NL] @ ''[assets/sub/img.png]''))"
    by (simp add: s5_def)
  have f2: "files s5 (Path [] [''out'', ''Trip.textbundle'', ''assets'', ''img.png''])
              = Some (Data ''PNG'')"
    by (simp add: s5_def s4_def s3_def)
  have f3: "files s5 (Path [] [''out'', ''Trip.textbundle'', ''assets'', ''sub'', ''img.png''])
              = None"
    by (simp add: s5_def s4_def s3_def s2_def s1_def disk_def)
  from att proc run f1 f2 f3 show ?thesis by simp
qed

section \<open>Modification timestamp\<close>

lemma datetime_to_str_whole_seconds:
  "datetime_to_str zone dt =
     (case zone (epoch_second dt) of
        Inl e \<Rightarrow> Inl e
      | Inr (wall, off) \<Rightarrow> Inr (wall @ off))"
  by (simp add: datetime_to_str_def isoformat_def split: sum.splits prod.splits)

lemma binary64_2514: "binary64 17179869184999999 = 17179869185000000"
  by code_simp

text \<open>
  C7, as the code has it. The divisor \<open>10e5\<close> is \<open>10^6\<close>, and \<open>datetime_to_str\<close> renders
  any \<open>datetime\<close> as the local calendar time of its whole second followed by the
  offset, with no fraction. For an edited time from \<open>0\<close> up to, but not including,
  \<open>2^53\<close> microseconds, that second is the edited time divided by \<open>10^6\<close>, rounded
  down: the modification timestamp is the machine's rendering of that second.
\<close>

theorem modification_timestamp_whole_seconds:
  assumes "0 \<le> userEditedTimestampUsec note"
    and "userEditedTimestampUsec note < 2 ^ 53"
  shows "TEN_E5 = 10 ^ 6
       \<and> datetime_to_str zone dt =
           (case zone (epoch_second dt) of
              Inl e \<Rightarrow> Inl e
            | Inr (wall, off) \<Rightarrow> Inr (wall @ off))
       \<and> fst (timeval (binary64 (of_int (userEditedTimestampUsec note) / TEN_E5)))
           = userEditedTimestampUsec note div 10 ^ 6
       \<and> convert_time zone (userEditedTimestampUsec note) =
           (case zone (userEditedTimestampUsec note div 10 ^ 6) of
              Inl e \<Rightarrow> Inl e
            | Inr (wall, off) \<Rightarrow> Inr (wall @ off))
       \<and> (zone (userEditedTimestampUsec note div 10 ^ 6) = Inr (wall, off) \<longrightarrow>
             convert_metadata zone uid note created_ts
               = Inr (new_tbundle_meta uid created_ts (wall @ off)
                        (isPinned note) (isArchived note) (isTrashed note)))"
proof -
  let ?n = "userEditedTimestampUsec note"
  have c: "TEN_E5 = 10 ^ 6" by (simp add: TEN_E5_def)
  have sec: "fst (timeval (binary64 (of_int ?n / TEN_E5))) = ?n div 10 ^ 6"
    using timeval_second [OF assms] by (simp add: TEN_E5_def)
  have conv: "convert_time zone ?n =
           (case zone (?n div 10 ^ 6) of
              Inl e \<Rightarrow> Inl e
            | Inr (wall, off) \<Rightarrow> Inr (wall @ off))"
    using convert_time_exact [OF assms, of zone] by simp
  have meta: "convert_metadata zone uid note created_ts
               = Inr (new_tbundle_meta uid created_ts (wall @ off)
                        (isPinned note) (isArchived note) (isTrashed note))"
    if "zone (?n div 10 ^ 6) = Inr (wall, off)"
    using that conv by (simp add: convert_metadata_def)
  from c sec conv meta datetime_to_str_whole_seconds [of zone dt] show ?thesis
    by blast
qed

theorem modification_timestamp_whole_seconds_witness:
  "0 \<le> userEditedTimestampUsec edited_2021
   \<and> userEditedTimestampUsec edited_2021 < 2 ^ 53
   \<and> userEditedTimestampUsec edited_2021 = 1612325106999999
   \<and> utc 1612325106 = Inr (''2021-02-03T04:05:06'', ''+00:00'')
   \<and> convert_metadata utc ''u'' edited_2021 ''2020-01-01T00:00:00+00:00''
       = Inr (new_tbundle_meta ''u'' ''2020-01-01T00:00:00+00:00'' ''2021-02-03T04:05:06+00:00''
                False False False)"
proof -
  have n: "userEditedTimestampUsec edited_2021 = 1612325106999999"
    by (simp add: edited_2021_def)
  have h1: "0 \<le> userEditedTimestampUsec edited_2021"
    and h2: "userEditedTimestampUsec edited_2021 < 2 ^ 53"
    by (simp_all add: n)
  have z: "utc (userEditedTimestampUsec edited_2021 div 10 ^ 6)
             = Inr (''2021-02-03T04:05:06'', ''+00:00'')"
    by (simp add: n utc_def)
  have flags: "\<not> isPinned edited_2021" "\<not> isArchived edited_2021" "\<not> isTrashed edited_2021"
    by (simp_all add: edited_2021_def)
  from modification_timestamp_whole_seconds [OF h1 h2, of utc
      "\<lparr>epoch_second = 0, microsecond = 0\<rparr>"
      "''2021-02-03T04:05:06''" "''+00:00''" "''u''" "''2020-01-01T00:00:00+00:00''"] z flags
  have "convert_metadata utc ''u'' edited_2021 ''2020-01-01T00:00:00+00:00''
       = Inr (new_tbundle_meta ''u'' ''2020-01-01T00:00:00+00:00'' ''2021-02-03T04:05:06+00:00''
                False False False)"
    by simp
  with h1 h2 n show ?thesis
    by (simp add: utc_def)
qed

text \<open>
  At 17179869184999999 microseconds the conversion to \<open>float\<close> rounds the integer to
  17179869185000000, the quotient is 17179869185.0, and the timestamp shows the
  second \<open>:05\<close>, where the edited time divided by \<open>10^6\<close> and rounded down is the
  second \<open>:04\<close>.
\<close>

theorem modification_timestamp_rounds_up_counterexample:
  "userEditedTimestampUsec edited_2514 = 17179869184999999
   \<and> userEditedTimestampUsec edited_2514 div 10 ^ 6 = 17179869184
   \<and> utc 17179869184 = Inr (''2514-05-30T01:53:04'', ''+00:00'')
   \<and> float_of_int (userEditedTimestampUsec edited_2514) = Inr 17179869185000000
   \<and> convert_metadata utc ''u'' edited_2514 ''2020-01-01T00:00:00+00:00''
       = Inr (new_tbundle_meta ''u'' ''2020-01-01T00:00:00+00:00'' ''2514-05-30T01:53:05+00:00''
                False False False)"
proof -
  have n: "userEditedTimestampUsec edited_2514 = 17179869184999999"
    by (simp add: edited_2514_def)
  have f: "float_of_int 17179869184999999 = Inr 17179869185000000"
    by (simp add: float_of_int_def binary64_2514)
  have "binary64 (of_int 17179869185) = of_int 17179869185"
    by (rule binary64_of_int) simp
  then have q: "binary64 (17179869185000000 / TEN_E5) = 17179869185"
    by (simp add: TEN_E5_def)
  have tv: "timeval 17179869185 = (17179869185, 0)"
    by (simp add: timeval_def modf_intpart_def binary64_def round_half_even_def)
  have t: "convert_time utc 17179869184999999 = Inr ''2514-05-30T01:53:05+00:00''"
    by (simp add: convert_time_def f q fromtimestamp_def tv datetime_to_str_def isoformat_def
          utc_def)
  have meta: "convert_metadata utc ''u'' edited_2514 ''2020-01-01T00:00:00+00:00''
       = Inr (new_tbundle_meta ''u'' ''2020-01-01T00:00:00+00:00'' ''2514-05-30T01:53:05+00:00''
                False False False)"
    by (simp add: convert_metadata_def n t) (simp add: edited_2514_def)
  from n f meta show ?thesis
    by (simp add: utc_def)
qed

end
